theory Spec2Isabelle
  imports
    Complex_Main
    "HOL-Library.Word"
    "HOL-Library.List_Lexorder"
    "HOL-Library.Char_ord"
begin

section \<open>Beth Yw? ingestion and merge engine: Measure, Area, Areas\<close>

text \<open>
  A shallow embedding of the C++ classes \<^verbatim>\<open>Measure\<close> (measure.cpp), \<^verbatim>\<open>Area\<close>
  (area.cpp) and \<^verbatim>\<open>Areas\<close> (areas.cpp). Member functions that mutate \<^verbatim>\<open>*this\<close>
  take the object and return the updated one; a function that can throw returns
  \<open>error + 'a\<close>, with \<open>Inl\<close> the exception. What a call that throws has already
  changed in the registry is not part of the result. The standard library functions
  are modelled from their documented behaviour.
\<close>

subsection \<open>Exceptions\<close>

text \<open>
  The exception classes the code throws or lets escape. \<open>vector_out_of_bounds\<close> is not a
  C++ exception: it marks an index past the end given to \<^verbatim>\<open>std::vector::operator[]\<close>,
  which the language leaves undefined and which no \<^verbatim>\<open>catch\<close> clause intercepts.
\<close>

datatype error =
    out_of_range
  | invalid_argument
  | runtime_error
  | regex_error
  | json_type_error
  | vector_out_of_bounds

subsection \<open>\<^verbatim>\<open>std::map\<close>: an association list kept in key order\<close>

type_synonym ('k, 'v) cmap = "('k \<times> 'v) list"

text \<open>\<^verbatim>\<open>m.at(k)\<close>: throws \<^verbatim>\<open>std::out_of_range\<close> for a missing key.\<close>

definition cmap_at :: "('k, 'v) cmap \<Rightarrow> 'k \<Rightarrow> error + 'v" where
  "cmap_at m k = (case map_of m k of None \<Rightarrow> Inl out_of_range | Some v \<Rightarrow> Inr v)"

text \<open>
  \<^verbatim>\<open>m.insert(std::pair(k, v))\<close>: an existing entry is kept; the flag is the
  \<^verbatim>\<open>second\<close> component of the returned pair (whether the insertion took place).
\<close>

fun cmap_insert :: "'k::linorder \<Rightarrow> 'v \<Rightarrow> ('k, 'v) cmap \<Rightarrow> ('k, 'v) cmap \<times> bool" where
  "cmap_insert k v [] = ([(k, v)], True)"
| "cmap_insert k v (e # m) =
     (if k < fst e then ((k, v) # e # m, True)
      else if k = fst e then (e # m, False)
      else (case cmap_insert k v m of (m', did) \<Rightarrow> (e # m', did)))"

text \<open>\<^verbatim>\<open>m[k] = v\<close>: the entry is created or overwritten.\<close>

fun cmap_assign :: "'k::linorder \<Rightarrow> 'v \<Rightarrow> ('k, 'v) cmap \<Rightarrow> ('k, 'v) cmap" where
  "cmap_assign k v [] = [(k, v)]"
| "cmap_assign k v (e # m) =
     (if k < fst e then (k, v) # e # m
      else if k = fst e then (k, v) # m
      else e # cmap_assign k v m)"

text \<open>
  Writing through the reference that \<^verbatim>\<open>at(k)\<close> returned: the entry found for
  \<open>k\<close> gets the new value, and nothing is added.
\<close>

fun cmap_replace :: "'k \<Rightarrow> 'v \<Rightarrow> ('k, 'v) cmap \<Rightarrow> ('k, 'v) cmap" where
  "cmap_replace k v [] = []"
| "cmap_replace k v (e # m) = (if fst e = k then (k, v) # m else e # cmap_replace k v m)"

text \<open>The representation invariant of a \<^verbatim>\<open>std::map\<close>: keys strictly ascending.\<close>

definition cmap_inv :: "('k::linorder, 'v) cmap \<Rightarrow> bool" where
  "cmap_inv m = sorted_wrt (<) (map fst m)"

subsection \<open>Characters and numbers\<close>

text \<open>\<^verbatim>\<open>::tolower\<close> in the C locale: the 26 capital letters are mapped, nothing else.\<close>

definition tolower :: "char \<Rightarrow> char" where
  "tolower c =
     (case map_of (zip ''ABCDEFGHIJKLMNOPQRSTUVWXYZ'' ''abcdefghijklmnopqrstuvwxyz'') c of
        None \<Rightarrow> c
      | Some l \<Rightarrow> l)"

text \<open>\<^verbatim>\<open>std::transform(s.begin(), s.end(), s.begin(), ::tolower)\<close>.\<close>

definition to_lower :: "string \<Rightarrow> string" where
  "to_lower s = map tolower s"

text \<open>
  A \<^verbatim>\<open>double\<close>. The three exceptional values of IEEE 754 are kept apart, because the
  code can produce and compare them; a finite value is idealised as a real number
  (rounding, overflow and the sign of zero are not modelled).
\<close>

datatype double = Finite real | PosInf | NegInf | NaN

text \<open>
  \<^verbatim>\<open>a + b\<close> on doubles. The sum of two finite values is their exact sum: it is
  neither rounded nor turned into an infinity when it is too large for a \<^verbatim>\<open>double\<close>.
\<close>

fun dplus :: "double \<Rightarrow> double \<Rightarrow> double" where
  "dplus NaN _ = NaN"
| "dplus _ NaN = NaN"
| "dplus PosInf NegInf = NaN"
| "dplus NegInf PosInf = NaN"
| "dplus PosInf _ = PosInf"
| "dplus _ PosInf = PosInf"
| "dplus NegInf _ = NegInf"
| "dplus _ NegInf = NegInf"
| "dplus (Finite a) (Finite b) = Finite (a + b)"

text \<open>
  \<^verbatim>\<open>a / n\<close> for a double \<^verbatim>\<open>a\<close> and a container size \<^verbatim>\<open>n\<close> (a \<^verbatim>\<open>size_t\<close>, converted
  to double, so the divisor is never negative and its zero is positive zero): zero by
  zero is NaN, any other finite value by zero is an infinity of the dividend's sign.
\<close>

fun ddiv_size :: "double \<Rightarrow> nat \<Rightarrow> double" where
  "ddiv_size NaN n = NaN"
| "ddiv_size PosInf n = PosInf"
| "ddiv_size NegInf n = NegInf"
| "ddiv_size (Finite a) n =
     (if n = 0 then (if a = 0 then NaN else if 0 < a then PosInf else NegInf)
      else Finite (a / real n))"

text \<open>\<^verbatim>\<open>a != b\<close> on doubles: NaN differs from everything, itself included.\<close>

fun dneq :: "double \<Rightarrow> double \<Rightarrow> bool" where
  "dneq NaN _ = True"
| "dneq _ NaN = True"
| "dneq a b = (a \<noteq> b)"

subsection \<open>Measure (measure.cpp)\<close>

type_synonym year = "32 word"

record Measure =
  m_code :: string
  m_label :: string
  m_values :: "(year, double) cmap"

text \<open>\<^verbatim>\<open>Measure::Measure(codename, label)\<close>: the codename is stored in lower case.\<close>

definition Measure_new :: "string \<Rightarrow> string \<Rightarrow> Measure" where
  "Measure_new codename lbl = \<lparr>m_code = to_lower codename, m_label = lbl, m_values = []\<rparr>"

definition Measure_getCodename :: "Measure \<Rightarrow> string" where
  "Measure_getCodename m = m_code m"

definition Measure_getLabel :: "Measure \<Rightarrow> string" where
  "Measure_getLabel m = m_label m"

text \<open>\<^verbatim>\<open>Measure::getValue\<close>: \<^verbatim>\<open>values.at(key)\<close>, rethrown as \<^verbatim>\<open>std::out_of_range\<close>.\<close>

definition Measure_getValue :: "Measure \<Rightarrow> year \<Rightarrow> error + double" where
  "Measure_getValue m key =
     (case cmap_at (m_values m) key of Inl e \<Rightarrow> Inl out_of_range | Inr v \<Rightarrow> Inr v)"

text \<open>\<^verbatim>\<open>Measure::setValue\<close>: insert, and overwrite when the insertion did not happen.\<close>

definition Measure_setValue :: "year \<Rightarrow> double \<Rightarrow> Measure \<Rightarrow> Measure" where
  "Measure_setValue key v m =
     (case cmap_insert key v (m_values m) of
        (vs, did_insert) \<Rightarrow>
          if \<not> did_insert then m\<lparr>m_values := cmap_assign key v vs\<rparr>
          else m\<lparr>m_values := vs\<rparr>)"

text \<open>
  \<^verbatim>\<open>Measure::operator=\<close>: codename and label are taken from the right-hand side, then
  every year of the right-hand side is written with \<^verbatim>\<open>setValue\<close>.
\<close>

definition Measure_assign :: "Measure \<Rightarrow> Measure \<Rightarrow> Measure" where
  "Measure_assign this other =
     fold (\<lambda>it. Measure_setValue (fst it) (snd it)) (m_values other)
       (this\<lparr>m_code := Measure_getCodename other, m_label := Measure_getLabel other\<rparr>)"

definition Measure_size :: "Measure \<Rightarrow> nat" where
  "Measure_size m = length (m_values m)"

text \<open>
  \<^verbatim>\<open>Measure::getAverage\<close>: the values are summed from 0 and the sum is divided by
  \<^verbatim>\<open>values.size()\<close>, with no test for an empty container.
\<close>

definition Measure_getAverage :: "Measure \<Rightarrow> double" where
  "Measure_getAverage m =
     (let rolling_average = fold (\<lambda>it acc. dplus acc (snd it)) (m_values m) (Finite 0)
      in ddiv_size rolling_average (length (m_values m)))"

text \<open>
  The loop of \<^verbatim>\<open>Measure::operator==\<close> over the left-hand values; \<open>None\<close> is the
  \<^verbatim>\<open>std::out_of_range\<close> of \<^verbatim>\<open>rhs.getValue\<close>, which ends the loop.
\<close>

fun Measure_eq_loop :: "(year, double) cmap \<Rightarrow> Measure \<Rightarrow> bool \<Rightarrow> bool option" where
  "Measure_eq_loop [] rhs match_data = Some match_data"
| "Measure_eq_loop (it # rest) rhs match_data =
     (case Measure_getValue rhs (fst it) of
        Inl e \<Rightarrow> None
      | Inr v \<Rightarrow> Measure_eq_loop rest rhs (if dneq (snd it) v then False else match_data))"

text \<open>\<^verbatim>\<open>Measure::operator==\<close>.\<close>

definition Measure_eq :: "Measure \<Rightarrow> Measure \<Rightarrow> bool" where
  "Measure_eq this rhs =
     (let match_code = (m_code this = Measure_getCodename rhs);
          match_label = (m_label this = Measure_getLabel rhs);
          match_data =
            (if Measure_size this = Measure_size rhs then
               (case Measure_eq_loop (m_values this) rhs True of
                  None \<Rightarrow> False
                | Some b \<Rightarrow> b)
             else False)
      in match_code \<and> match_label \<and> match_data)"

subsection \<open>Loops whose body can throw\<close>

text \<open>A range-based \<^verbatim>\<open>for\<close> whose body can throw: the first exception ends the loop.\<close>

fun for_each :: "('a \<Rightarrow> 's \<Rightarrow> error + 's) \<Rightarrow> 'a list \<Rightarrow> 's \<Rightarrow> error + 's" where
  "for_each body [] s = Inr s"
| "for_each body (x # xs) s =
     (case body x s of Inl e \<Rightarrow> Inl e | Inr s' \<Rightarrow> for_each body xs s')"

subsection \<open>Area (area.cpp)\<close>

record Area =
  area_code :: string
  names :: "(string, string) cmap"
  measures :: "(string, Measure) cmap"

text \<open>\<^verbatim>\<open>Area::Area(local_authority_code)\<close>.\<close>

definition Area_new :: "string \<Rightarrow> Area" where
  "Area_new local_authority_code =
     \<lparr>area_code = local_authority_code, names = [], measures = []\<rparr>"

definition Area_getLocalAuthorityCode :: "Area \<Rightarrow> string" where
  "Area_getLocalAuthorityCode a = area_code a"

text \<open>\<^verbatim>\<open>Area::getName\<close>.\<close>

definition Area_getName :: "Area \<Rightarrow> string \<Rightarrow> error + string" where
  "Area_getName a lang =
     (case cmap_at (names a) lang of Inl e \<Rightarrow> Inl out_of_range | Inr n \<Rightarrow> Inr n)"

text \<open>\<^verbatim>\<open>std::regex_match(lang, std::regex("^[a-z]{3}$"))\<close>.\<close>

definition regex_match_iso_639_3 :: "string \<Rightarrow> bool" where
  "regex_match_iso_639_3 lang =
     (length lang = 3 \<and> list_all (\<lambda>c. c \<in> set ''abcdefghijklmnopqrstuvwxyz'') lang)"

text \<open>
  \<^verbatim>\<open>Area::setName\<close>: the language code is lower-cased, checked against the pattern
  (\<^verbatim>\<open>std::invalid_argument\<close> otherwise) and the name is inserted or overwritten.
\<close>

definition Area_setName :: "string \<Rightarrow> string \<Rightarrow> Area \<Rightarrow> error + Area" where
  "Area_setName lang name a =
     (let lang' = to_lower lang in
      if \<not> regex_match_iso_639_3 lang' then Inl invalid_argument
      else
        (case cmap_insert lang' name (names a) of
           (ns, did_insert) \<Rightarrow>
             if \<not> did_insert then Inr (a\<lparr>names := cmap_assign lang' name ns\<rparr>)
             else Inr (a\<lparr>names := ns\<rparr>)))"

text \<open>\<^verbatim>\<open>Area::getMeasure\<close>: the key is lower-cased before the lookup.\<close>

definition Area_getMeasure :: "Area \<Rightarrow> string \<Rightarrow> error + Measure" where
  "Area_getMeasure a key =
     (let lower_key = to_lower key in
      case cmap_at (measures a) lower_key of Inl e \<Rightarrow> Inl out_of_range | Inr m \<Rightarrow> Inr m)"

text \<open>
  \<^verbatim>\<open>Area::setMeasure\<close>: an existing Measure under the lower-cased key is updated in
  place by \<^verbatim>\<open>Measure::operator=\<close>; otherwise the Measure is inserted.
\<close>

definition Area_setMeasure :: "string \<Rightarrow> Measure \<Rightarrow> Area \<Rightarrow> Area" where
  "Area_setMeasure key new_measure a =
     (let tmp = to_lower key in
      case Area_getMeasure a tmp of
        Inr old \<Rightarrow> a\<lparr>measures := cmap_replace (to_lower tmp) (Measure_assign old new_measure) (measures a)\<rparr>
      | Inl e \<Rightarrow> a\<lparr>measures := fst (cmap_insert tmp new_measure (measures a))\<rparr>)"

definition Area_size :: "Area \<Rightarrow> nat" where
  "Area_size a = length (measures a)"

text \<open>
  \<^verbatim>\<open>Area::operator=\<close>: the code is overwritten, then every name of the right-hand side
  goes through \<^verbatim>\<open>setName\<close> and every Measure through \<^verbatim>\<open>setMeasure\<close>.
\<close>

definition Area_assign :: "Area \<Rightarrow> Area \<Rightarrow> error + Area" where
  "Area_assign this other =
     (case for_each (\<lambda>it. Area_setName (fst it) (snd it)) (names other)
             (this\<lparr>area_code := Area_getLocalAuthorityCode other\<rparr>) of
        Inl e \<Rightarrow> Inl e
      | Inr this' \<Rightarrow> Inr (fold (\<lambda>it. Area_setMeasure (fst it) (snd it)) (measures other) this'))"

text \<open>
  The two counting loops of \<^verbatim>\<open>Area::operator==\<close>; \<open>None\<close> is the
  \<^verbatim>\<open>std::out_of_range\<close> of \<^verbatim>\<open>rhs.getName\<close> or \<^verbatim>\<open>rhs.getMeasure\<close>. The counter
  \<^verbatim>\<open>num_matches\<close> is an \<^verbatim>\<open>unsigned int\<close>; it is a \<open>nat\<close> here (containers of
  \<open>2 ^ 32\<close> entries are not modelled).
\<close>

fun Area_eq_names_loop :: "(string, string) cmap \<Rightarrow> Area \<Rightarrow> nat \<Rightarrow> nat option" where
  "Area_eq_names_loop [] rhs num_matches = Some num_matches"
| "Area_eq_names_loop (it # rest) rhs num_matches =
     (case Area_getName rhs (fst it) of
        Inl e \<Rightarrow> None
      | Inr n \<Rightarrow> Area_eq_names_loop rest rhs (if snd it = n then num_matches + 1 else num_matches))"

fun Area_eq_measures_loop :: "(string, Measure) cmap \<Rightarrow> Area \<Rightarrow> nat \<Rightarrow> nat option" where
  "Area_eq_measures_loop [] rhs num_matches = Some num_matches"
| "Area_eq_measures_loop (it # rest) rhs num_matches =
     (case Area_getMeasure rhs (fst it) of
        Inl e \<Rightarrow> None
      | Inr m \<Rightarrow>
          Area_eq_measures_loop rest rhs
            (if Measure_eq m (snd it) then num_matches + 1 else num_matches))"

text \<open>
  \<^verbatim>\<open>Area::operator==\<close>. After a caught exception \<^verbatim>\<open>num_matches\<close> is \<^verbatim>\<open>-1\<close>, that is
  4294967295.
\<close>

definition Area_eq :: "Area \<Rightarrow> Area \<Rightarrow> bool" where
  "Area_eq this rhs =
     (let match_codes = (Area_getLocalAuthorityCode this = Area_getLocalAuthorityCode rhs);
          match_names =
            (if length (names this) = length (names rhs) then
               (let num_matches =
                      (case Area_eq_names_loop (names this) rhs 0 of
                         None \<Rightarrow> 4294967295
                       | Some n \<Rightarrow> n)
                in num_matches = length (names this))
             else False);
          match_data =
            (if Area_size this = Area_size rhs then
               (let num_matches =
                      (case Area_eq_measures_loop (measures this) rhs 0 of
                         None \<Rightarrow> 4294967295
                       | Some n \<Rightarrow> n)
                in num_matches = length (measures this))
             else False)
      in match_codes \<and> match_names \<and> match_data)"

text \<open>
  \<^verbatim>\<open>checkIfAreaMatchesFilter\<close>. The filter is a pointer to an unordered set (\<open>None\<close> is the
  null pointer; the list holds the set's elements in its iteration order). The regular
  expression library is a parameter: \<open>regex_icase p\<close> is the matcher that
  \<^verbatim>\<open>regex.assign(p, std::regex_constants::icase)\<close> followed by \<^verbatim>\<open>std::regex_match\<close>
  gives, or \<open>None\<close> when \<^verbatim>\<open>assign\<close> throws \<^verbatim>\<open>std::regex_error\<close>.
\<close>

type_synonym regex_lib = "string \<Rightarrow> (string \<Rightarrow> bool) option"

type_synonym StringFilterSet = "string list"

definition checkIfAreaMatchesFilter_token ::
    "regex_lib \<Rightarrow> Area \<Rightarrow> string \<Rightarrow> bool \<Rightarrow> error + bool" where
  "checkIfAreaMatchesFilter_token regex_icase area code match =
     (let area_regex_pattern = ''^.*'' @ code @ ''.*$'' in
      case regex_icase area_regex_pattern of
        None \<Rightarrow> Inl regex_error
      | Some regex \<Rightarrow>
          if regex (area_code area) then Inr True
          else Inr (fold (\<lambda>name m. if regex (snd name) then True else m) (names area) match))"

definition checkIfAreaMatchesFilter ::
    "regex_lib \<Rightarrow> Area \<Rightarrow> StringFilterSet option \<Rightarrow> error + bool" where
  "checkIfAreaMatchesFilter regex_icase area filter_set =
     (case filter_set of
        None \<Rightarrow> Inr True
      | Some f \<Rightarrow>
          if f = [] then Inr True
          else for_each (checkIfAreaMatchesFilter_token regex_icase area) f False)"

subsection \<open>Control flow and library functions used by the parsers\<close>

text \<open>Sequencing of two steps the first of which can throw.\<close>

definition bind_err :: "error + 'a \<Rightarrow> ('a \<Rightarrow> error + 'b) \<Rightarrow> error + 'b" where
  "bind_err r f = (case r of Inl e \<Rightarrow> Inl e | Inr x \<Rightarrow> f x)"

text \<open>
  \<^verbatim>\<open>try { body } catch (std::out_of_range &e) { handler }\<close>. Every use below has a body
  that changes nothing before it throws \<^verbatim>\<open>std::out_of_range\<close>, so the handler starts
  from the state the body started from.
\<close>

definition try_catch_out_of_range :: "error + 'a \<Rightarrow> error + 'a \<Rightarrow> error + 'a" where
  "try_catch_out_of_range body handler =
     (case body of
        Inl e \<Rightarrow> if e = out_of_range then handler else Inl e
      | Inr x \<Rightarrow> Inr x)"

text \<open>
  An input stream: the characters not yet read, and whether the stream is still good
  (neither \<^verbatim>\<open>eofbit\<close> nor \<^verbatim>\<open>failbit\<close> set).
\<close>

record istream =
  is_buf :: string
  is_good :: bool

text \<open>A \<^verbatim>\<open>std::stringstream\<close> that has just been given the text \<open>s\<close>.\<close>

definition stringstream :: "string \<Rightarrow> istream" where
  "stringstream s = \<lparr>is_buf = s, is_good = True\<rparr>"

text \<open>
  \<^verbatim>\<open>std::getline(is, str, delim)\<close>; the result is whether the call succeeded, the stream
  and the string afterwards. On a stream that is not good nothing is read and \<^verbatim>\<open>str\<close>
  keeps its old value. Otherwise \<^verbatim>\<open>str\<close> is erased and filled up to the delimiter, which
  is consumed; reaching the end of input sets \<^verbatim>\<open>eofbit\<close>, and the call fails when no
  character was extracted.
\<close>

definition getline :: "char \<Rightarrow> istream \<Rightarrow> string \<Rightarrow> bool \<times> istream \<times> string" where
  "getline delim is str =
     (if \<not> is_good is then (False, is, str)
      else if delim \<in> set (is_buf is) then
        (True,
         is\<lparr>is_buf := tl (dropWhile (\<lambda>c. c \<noteq> delim) (is_buf is))\<rparr>,
         takeWhile (\<lambda>c. c \<noteq> delim) (is_buf is))
      else if is_buf is = [] then (False, is\<lparr>is_good := False\<rparr>, [])
      else (True, \<lparr>is_buf = [], is_good = False\<rparr>, is_buf is))"

definition newline :: char where
  "newline = CHR 0x0A"

definition comma :: char where
  "comma = CHR '',''"

definition istream_measure :: "istream \<Rightarrow> nat" where
  "istream_measure is = length (is_buf is) + (if is_good is then 1 else 0)"

text \<open>
  \<^verbatim>\<open>while (std::getline(is, str, delim)) { body }\<close> with a body that can throw; the
  result is the stream and the loop state when \<^verbatim>\<open>getline\<close> fails. (Every successful
  call overwrites the string, and no caller reads it after the loop.)
\<close>

function while_getline ::
    "char \<Rightarrow> (string \<Rightarrow> 's \<Rightarrow> error + 's) \<Rightarrow> istream \<Rightarrow> 's \<Rightarrow> error + (istream \<times> 's)" where
  "while_getline delim body is s =
     (case getline delim is [] of
        (ok, is', str) \<Rightarrow>
          if ok then
            (case body str s of
               Inl e \<Rightarrow> Inl e
             | Inr s' \<Rightarrow> while_getline delim body is' s')
          else Inr (is', s))"
  by pat_completeness auto
termination
  apply (relation "measure (\<lambda>(delim, body, is, s). istream_measure is)")
   apply simp
  apply (auto simp: getline_def istream_measure_def split: if_splits)
  subgoal for delim body stream
    using length_dropWhile_le [of "\<lambda>c. c \<noteq> delim" "is_buf stream"]
    by (cases "is_buf stream") auto
  done

declare while_getline.simps [simp del]

text \<open>\<^verbatim>\<open>isspace\<close> in the C locale.\<close>

definition isspace :: "char \<Rightarrow> bool" where
  "isspace c = (c \<in> set [CHR '' '', CHR 0x09, CHR 0x0A, CHR 0x0B, CHR 0x0C, CHR 0x0D])"

definition digit_value :: "char \<Rightarrow> int option" where
  "digit_value c = map_of (zip ''0123456789'' [0, 1, 2, 3, 4, 5, 6, 7, 8, 9]) c"

text \<open>
  \<^verbatim>\<open>std::stoi(str)\<close>: leading white space, an optional sign and the longest run of
  decimal digits; \<^verbatim>\<open>std::invalid_argument\<close> when there is no digit,
  \<^verbatim>\<open>std::out_of_range\<close> when the number does not fit an \<^verbatim>\<open>int\<close>.
\<close>

definition stoi :: "string \<Rightarrow> error + int" where
  "stoi str =
     (let s1 = dropWhile isspace str;
          negative = (s1 \<noteq> [] \<and> hd s1 = CHR ''-'');
          s2 = (if s1 \<noteq> [] \<and> (hd s1 = CHR ''-'' \<or> hd s1 = CHR ''+'') then tl s1 else s1);
          ds = takeWhile (\<lambda>c. digit_value c \<noteq> None) s2;
          n = fold (\<lambda>c acc. acc * 10 + the (digit_value c)) ds 0;
          v = (if negative then - n else n)
      in if ds = [] then Inl invalid_argument
         else if v < - 2147483648 \<or> 2147483647 < v then Inl out_of_range
         else Inr v)"

text \<open>The conversion of an \<^verbatim>\<open>int\<close> to \<^verbatim>\<open>unsigned int\<close> (modulo \<open>2 ^ 32\<close>).\<close>

definition to_unsigned :: "int \<Rightarrow> year" where
  "to_unsigned v = word_of_int v"

text \<open>
  \<^verbatim>\<open>std::stod\<close> is a parameter of the parsers: it gives the value, or the exception
  (\<^verbatim>\<open>std::invalid_argument\<close>, \<^verbatim>\<open>std::out_of_range\<close>) it throws.
\<close>

type_synonym stod_lib = "string \<Rightarrow> error + double"

text \<open>\<^verbatim>\<open>values[i]\<close> on a \<^verbatim>\<open>std::vector\<close>.\<close>

definition vector_index :: "'a list \<Rightarrow> nat \<Rightarrow> error + 'a" where
  "vector_index xs i = (if i < length xs then Inr (xs ! i) else Inl vector_out_of_bounds)"

text \<open>
  The column mapping \<^verbatim>\<open>BethYw::SourceColumnMapping\<close> (datasets.h), a map from the
  enumeration \<^verbatim>\<open>BethYw::SourceColumn\<close> to header texts.
\<close>

datatype SourceColumn =
    AUTH_CODE
  | AUTH_NAME_ENG
  | AUTH_NAME_CYM
  | MEASURE_CODE
  | MEASURE_NAME
  | SINGLE_MEASURE_CODE
  | SINGLE_MEASURE_NAME
  | YEAR
  | VALUE

type_synonym SourceColumnMapping = "SourceColumn \<Rightarrow> string option"

text \<open>\<^verbatim>\<open>cols.at(c)\<close>.\<close>

definition cols_at :: "SourceColumnMapping \<Rightarrow> SourceColumn \<Rightarrow> error + string" where
  "cols_at cols c = (case cols c of None \<Rightarrow> Inl out_of_range | Some h \<Rightarrow> Inr h)"

text \<open>
  \<^verbatim>\<open>YearFilterTuple\<close>, and the decoding both year-aware parsers perform: all years are
  loaded for a null pointer and whenever the second component is 0. (For the null
  pointer the two bounds stay uninitialised in the code and are never read.)
\<close>

type_synonym YearFilterTuple = "year \<times> year"

definition decode_yearsFilter :: "YearFilterTuple option \<Rightarrow> bool \<times> year \<times> year" where
  "decode_yearsFilter yearsFilter =
     (case yearsFilter of
        Some (year_range_start, year_range_end) \<Rightarrow>
          (if year_range_end = 0 then True else False, year_range_start, year_range_end)
      | None \<Rightarrow> (True, 0, 0))"

text \<open>\<^verbatim>\<open>filter == nullptr || filter->empty()\<close>.\<close>

definition null_or_empty :: "StringFilterSet option \<Rightarrow> bool" where
  "null_or_empty f = (f = None \<or> f = Some [])"

subsection \<open>Areas (areas.cpp)\<close>

text \<open>The class has one member, \<^verbatim>\<open>areas_container\<close>, a \<^verbatim>\<open>std::map\<close> from code to Area.\<close>

type_synonym Areas = "(string, Area) cmap"

text \<open>\<^verbatim>\<open>Areas::getArea\<close>.\<close>

definition Areas_getArea :: "Areas \<Rightarrow> string \<Rightarrow> error + Area" where
  "Areas_getArea areas auth_code =
     (case cmap_at areas auth_code of Inl e \<Rightarrow> Inl out_of_range | Inr a \<Rightarrow> Inr a)"

text \<open>
  \<^verbatim>\<open>Areas::setArea\<close>: an Area already stored under the code is updated in place by
  \<^verbatim>\<open>Area::operator=\<close>; when \<^verbatim>\<open>getArea\<close> throws, the Area is inserted.
\<close>

definition Areas_setArea :: "string \<Rightarrow> Area \<Rightarrow> Areas \<Rightarrow> error + Areas" where
  "Areas_setArea auth_code area areas =
     try_catch_out_of_range
       (bind_err (Areas_getArea areas auth_code) (\<lambda>old.
        bind_err (Area_assign old area) (\<lambda>old'.
        Inr (cmap_replace auth_code old' areas))))
       (Inr (fst (cmap_insert auth_code area areas)))"

definition Areas_size :: "Areas \<Rightarrow> nat" where
  "Areas_size areas = length areas"

subsubsection \<open>\<^verbatim>\<open>Areas::populateFromAuthorityCodeCSV\<close>\<close>

text \<open>
  The header check: three fields are read from the first line and compared with the
  three expected headers; the result is the flag \<^verbatim>\<open>error\<close>. A missing entry of
  \<^verbatim>\<open>cols\<close> is rethrown as \<^verbatim>\<open>std::out_of_range\<close>.
\<close>

definition AuthorityCodeCSV_header :: "SourceColumnMapping \<Rightarrow> string \<Rightarrow> error + bool" where
  "AuthorityCodeCSV_header cols line_buff =
     try_catch_out_of_range
       (bind_err (cols_at cols AUTH_CODE) (\<lambda>tmp1.
        case getline comma (stringstream line_buff) [] of (ok1, ls1, value1) \<Rightarrow>
        bind_err (cols_at cols AUTH_NAME_ENG) (\<lambda>tmp2.
        case getline comma ls1 value1 of (ok2, ls2, value2) \<Rightarrow>
        bind_err (cols_at cols AUTH_NAME_CYM) (\<lambda>tmp3.
        case getline comma ls2 value2 of (ok3, ls3, value3) \<Rightarrow>
        Inr (value1 \<noteq> tmp1 \<or> value2 \<noteq> tmp2 \<or> value3 \<noteq> tmp3)))))
       (Inl out_of_range)"

text \<open>
  The body of the row loop: code, English name and Welsh name are read from the line,
  and the Area is merged into the registry if everything is loaded or the Area matches
  the filter.
\<close>

definition AuthorityCodeCSV_row ::
    "regex_lib \<Rightarrow> StringFilterSet option \<Rightarrow> string \<Rightarrow> Areas \<Rightarrow> error + Areas" where
  "AuthorityCodeCSV_row regex_icase areasFilter line_buff areas =
     (let load_all = null_or_empty areasFilter in
      case getline comma (stringstream line_buff) [] of (ok1, ls1, value1) \<Rightarrow>
      let a0 = Area_new value1 in
      case getline comma ls1 value1 of (ok2, ls2, value2) \<Rightarrow>
      bind_err (Area_setName ''eng'' value2 a0) (\<lambda>a1.
      case getline comma ls2 value2 of (ok3, ls3, value3) \<Rightarrow>
      bind_err (Area_setName ''cym'' value3 a1) (\<lambda>a.
      if \<not> load_all then
        bind_err (checkIfAreaMatchesFilter regex_icase a areasFilter) (\<lambda>matches.
        if matches then Areas_setArea (Area_getLocalAuthorityCode a) a areas
        else Inr areas)
      else Areas_setArea (Area_getLocalAuthorityCode a) a areas)))"

definition populateFromAuthorityCodeCSV ::
    "regex_lib \<Rightarrow> istream \<Rightarrow> SourceColumnMapping \<Rightarrow> StringFilterSet option \<Rightarrow> Areas
      \<Rightarrow> error + (istream \<times> Areas)" where
  "populateFromAuthorityCodeCSV regex_icase is cols areasFilter areas =
     (case getline newline is [] of (ok, is1, line_buff) \<Rightarrow>
      bind_err (AuthorityCodeCSV_header cols line_buff) (\<lambda>error.
      if error then Inl runtime_error
      else while_getline newline (AuthorityCodeCSV_row regex_icase areasFilter) is1 areas))"

subsubsection \<open>JSON values (the nlohmann library)\<close>

text \<open>
  A parsed JSON value. An object is a \<^verbatim>\<open>std::map\<close> from key to value; every number is
  held as a double.
\<close>

datatype json =
    JNull
  | JBool bool
  | JNumber double
  | JString string
  | JArray "json list"
  | JObject "(string \<times> json) list"

text \<open>
  \<^verbatim>\<open>j[key]\<close> with a string key: the member, null for a missing member or a null
  \<^verbatim>\<open>j\<close>, and a \<^verbatim>\<open>type_error\<close> when \<^verbatim>\<open>j\<close> is neither an object nor null.
\<close>

definition json_index :: "json \<Rightarrow> string \<Rightarrow> error + json" where
  "json_index j key =
     (case j of
        JObject kvs \<Rightarrow> Inr (case map_of kvs key of None \<Rightarrow> JNull | Some v \<Rightarrow> v)
      | JNull \<Rightarrow> Inr JNull
      | _ \<Rightarrow> Inl json_type_error)"

text \<open>The elements that \<^verbatim>\<open>j.items()\<close> iterates over.\<close>

definition json_items :: "json \<Rightarrow> json list" where
  "json_items j =
     (case j of
        JArray xs \<Rightarrow> xs
      | JObject kvs \<Rightarrow> map snd kvs
      | JNull \<Rightarrow> []
      | _ \<Rightarrow> [j])"

text \<open>The conversions to \<^verbatim>\<open>std::string\<close> and to \<^verbatim>\<open>double\<close>.\<close>

definition json_get_string :: "json \<Rightarrow> error + string" where
  "json_get_string j = (case j of JString s \<Rightarrow> Inr s | _ \<Rightarrow> Inl json_type_error)"

definition json_get_double :: "json \<Rightarrow> error + double" where
  "json_get_double j = (case j of JNumber d \<Rightarrow> Inr d | _ \<Rightarrow> Inl json_type_error)"

definition json_is_string :: "json \<Rightarrow> bool" where
  "json_is_string j = (case j of JString s \<Rightarrow> True | _ \<Rightarrow> False)"

subsubsection \<open>\<^verbatim>\<open>Areas::populateFromWelshStatsJSON\<close>\<close>

text \<open>What the first \<^verbatim>\<open>try\<close> block extracts from one element of \<^verbatim>\<open>j["value"]\<close>.\<close>

record WelshStatsJSON_fields =
  current_local_auth_code :: string
  current_area_name_eng :: string
  current_year :: year
  current_value :: double
  current_measure_code :: string
  current_measure_label :: string

text \<open>
  The measure code and label: from the element, under the headers
  \<^verbatim>\<open>MEASURE_CODE\<close> and \<^verbatim>\<open>MEASURE_NAME\<close>; when one of the two is missing from
  \<^verbatim>\<open>cols\<close>, the texts of \<^verbatim>\<open>SINGLE_MEASURE_CODE\<close> and \<^verbatim>\<open>SINGLE_MEASURE_NAME\<close>.
\<close>

definition WelshStatsJSON_measure ::
    "SourceColumnMapping \<Rightarrow> json \<Rightarrow> error + (string \<times> string)" where
  "WelshStatsJSON_measure cols data =
     try_catch_out_of_range
       (bind_err (cols_at cols MEASURE_CODE) (\<lambda>measure_code_tag.
        bind_err (cols_at cols MEASURE_NAME) (\<lambda>measure_label_tag.
        bind_err (bind_err (json_index data measure_code_tag) json_get_string) (\<lambda>code.
        bind_err (bind_err (json_index data measure_label_tag) json_get_string) (\<lambda>lbl.
        Inr (code, lbl))))))
       (bind_err (cols_at cols SINGLE_MEASURE_CODE) (\<lambda>code.
        bind_err (cols_at cols SINGLE_MEASURE_NAME) (\<lambda>lbl.
        Inr (code, lbl))))"

definition WelshStatsJSON_extract ::
    "stod_lib \<Rightarrow> SourceColumnMapping \<Rightarrow> json \<Rightarrow> error + WelshStatsJSON_fields" where
  "WelshStatsJSON_extract stod cols data =
     try_catch_out_of_range
       (bind_err (cols_at cols AUTH_CODE) (\<lambda>k1.
        bind_err (bind_err (json_index data k1) json_get_string) (\<lambda>auth_code.
        bind_err (cols_at cols AUTH_NAME_ENG) (\<lambda>k2.
        bind_err (bind_err (json_index data k2) json_get_string) (\<lambda>name_eng.
        bind_err (cols_at cols YEAR) (\<lambda>k3.
        bind_err (bind_err (json_index data k3) json_get_string) (\<lambda>tmp.
        bind_err (stoi tmp) (\<lambda>y.
        bind_err (cols_at cols VALUE) (\<lambda>k4.
        bind_err (json_index data k4) (\<lambda>v.
        bind_err (if json_is_string v then bind_err (json_get_string v) stod
                  else json_get_double v) (\<lambda>val.
        bind_err (WelshStatsJSON_measure cols data) (\<lambda>(code, lbl).
        Inr \<lparr>current_local_auth_code = auth_code,
             current_area_name_eng = name_eng,
             current_year = to_unsigned y,
             current_value = val,
             current_measure_code = to_lower code,
             current_measure_label = lbl\<rparr>))))))))))))
       (Inl out_of_range)"

text \<open>
  Whether the element is loaded: its year must be in range unless all years are
  loaded, and with a measures filter some entry of the filter must equal, in lower
  case, the measure code.
\<close>

definition WelshStatsJSON_should_load ::
    "StringFilterSet option \<Rightarrow> bool \<times> year \<times> year \<Rightarrow> WelshStatsJSON_fields \<Rightarrow> bool" where
  "WelshStatsJSON_should_load measuresFilter yf r =
     (case yf of (load_all_years, year_range_start, year_range_end) \<Rightarrow>
      let should_load =
            (if \<not> (load_all_years \<or>
                    (year_range_start \<le> current_year r \<and> current_year r \<le> year_range_end))
             then False else True)
      in if \<not> null_or_empty measuresFilter then
           (let match = fold (\<lambda>it match. if to_lower it = current_measure_code r then True
                                           else match)
                          (the measuresFilter) False
            in should_load \<and> match)
         else should_load)"

text \<open>
  The merge of a loaded element. An Area stored under the code receives the value, if
  it passes the areas filter: into its Measure of that code, or into a new Measure.
  When \<^verbatim>\<open>getArea\<close> throws, an Area with the English name is built and, if it passes
  the filter, stored with a new Measure.
\<close>

definition WelshStatsJSON_merge ::
    "regex_lib \<Rightarrow> StringFilterSet option \<Rightarrow> WelshStatsJSON_fields \<Rightarrow> Areas \<Rightarrow> error + Areas" where
  "WelshStatsJSON_merge regex_icase areasFilter r areas =
     (let load_all_areas = null_or_empty areasFilter in
      try_catch_out_of_range
        (bind_err (Areas_getArea areas (current_local_auth_code r)) (\<lambda>a.
         bind_err (if load_all_areas then Inr True
                   else checkIfAreaMatchesFilter regex_icase a areasFilter) (\<lambda>matches.
         if matches then
           (case Area_getMeasure a (current_measure_code r) of
              Inr m \<Rightarrow>
                Inr (cmap_replace (current_local_auth_code r)
                       (a\<lparr>measures :=
                            cmap_replace (to_lower (current_measure_code r))
                              (Measure_setValue (current_year r) (current_value r) m)
                              (measures a)\<rparr>)
                       areas)
            | Inl e \<Rightarrow>
                (let new_measure =
                       Measure_setValue (current_year r) (current_value r)
                         (Measure_new (current_measure_code r) (current_measure_label r))
                 in Inr (cmap_replace (current_local_auth_code r)
                           (Area_setMeasure (Measure_getCodename new_measure) new_measure a)
                           areas)))
         else Inr areas)))
        (bind_err (Area_setName ''eng'' (current_area_name_eng r)
                     (Area_new (current_local_auth_code r))) (\<lambda>new_area.
         bind_err (if load_all_areas then Inr True
                   else checkIfAreaMatchesFilter regex_icase new_area areasFilter) (\<lambda>matches.
         if matches then
           (let new_measure =
                  Measure_setValue (current_year r) (current_value r)
                    (Measure_new (current_measure_code r) (current_measure_label r));
                new_area' = Area_setMeasure (Measure_getCodename new_measure) new_measure new_area
            in Areas_setArea (current_local_auth_code r) new_area' areas)
         else Inr areas))))"

text \<open>The body of the loop over \<^verbatim>\<open>j["value"].items()\<close>.\<close>

definition WelshStatsJSON_element ::
    "regex_lib \<Rightarrow> stod_lib \<Rightarrow> SourceColumnMapping \<Rightarrow> StringFilterSet option
      \<Rightarrow> StringFilterSet option \<Rightarrow> bool \<times> year \<times> year \<Rightarrow> json \<Rightarrow> Areas \<Rightarrow> error + Areas" where
  "WelshStatsJSON_element regex_icase stod cols areasFilter measuresFilter yf data areas =
     bind_err (WelshStatsJSON_extract stod cols data) (\<lambda>r.
     if WelshStatsJSON_should_load measuresFilter yf r
     then WelshStatsJSON_merge regex_icase areasFilter r areas
     else Inr areas)"

text \<open>
  \<^verbatim>\<open>Areas::populateFromWelshStatsJSON\<close>; \<open>j\<close> is the document that \<^verbatim>\<open>is >> j\<close> has
  parsed from the stream.
\<close>

definition populateFromWelshStatsJSON ::
    "regex_lib \<Rightarrow> stod_lib \<Rightarrow> json \<Rightarrow> SourceColumnMapping \<Rightarrow> StringFilterSet option
      \<Rightarrow> StringFilterSet option \<Rightarrow> YearFilterTuple option \<Rightarrow> Areas \<Rightarrow> error + Areas" where
  "populateFromWelshStatsJSON regex_icase stod j cols areasFilter measuresFilter yearsFilter areas =
     bind_err (json_index j ''value'') (\<lambda>v.
     for_each
       (WelshStatsJSON_element regex_icase stod cols areasFilter measuresFilter
          (decode_yearsFilter yearsFilter))
       (json_items v) areas)"

subsubsection \<open>\<^verbatim>\<open>Areas::populateFromAuthorityByYearCSV\<close>\<close>

text \<open>
  The decision taken before anything is read: the file is loaded for a null or empty
  measures filter, or when some entry of the filter equals, in lower case, the
  \<^verbatim>\<open>SINGLE_MEASURE_CODE\<close> of \<^verbatim>\<open>cols\<close>.
\<close>

definition AuthorityByYearCSV_should_load ::
    "SourceColumnMapping \<Rightarrow> StringFilterSet option \<Rightarrow> error + bool" where
  "AuthorityByYearCSV_should_load cols measuresFilter =
     (if null_or_empty measuresFilter then Inr True
      else
        try_catch_out_of_range
          (for_each
             (\<lambda>it should_load.
                bind_err (cols_at cols SINGLE_MEASURE_CODE) (\<lambda>tmp.
                Inr (if to_lower tmp = to_lower it then True else should_load)))
             (the measuresFilter) False)
          (Inl out_of_range))"

text \<open>
  The body of the loop over the header's year columns; the state is the map
  \<^verbatim>\<open>allowed_years\<close> (column index to year) and the column counter \<^verbatim>\<open>i\<close>.
\<close>

definition AuthorityByYearCSV_year_column ::
    "bool \<times> year \<times> year \<Rightarrow> string \<Rightarrow> (nat, year) cmap \<times> nat
      \<Rightarrow> error + ((nat, year) cmap \<times> nat)" where
  "AuthorityByYearCSV_year_column yf field st =
     (case yf of (load_all_years, year_range_start, year_range_end) \<Rightarrow>
      case st of (allowed_years, i) \<Rightarrow>
      bind_err (stoi field) (\<lambda>n.
      let yr = to_unsigned n in
      Inr (if load_all_years \<or>
              (yr \<le> year_range_end \<and> yr \<ge> year_range_start)
           then fst (cmap_insert i yr allowed_years)
           else allowed_years,
           i + 1)))"

text \<open>
  The header line: its first field must be the \<^verbatim>\<open>AUTH_CODE\<close> header
  (\<^verbatim>\<open>std::runtime_error\<close> otherwise); the other fields are the year columns.
\<close>

definition AuthorityByYearCSV_header ::
    "SourceColumnMapping \<Rightarrow> bool \<times> year \<times> year \<Rightarrow> string \<Rightarrow> error + (nat, year) cmap" where
  "AuthorityByYearCSV_header cols yf line_buffer =
     (case getline comma (stringstream line_buffer) [] of (ok, ls1, first_field) \<Rightarrow>
      bind_err (cols_at cols AUTH_CODE) (\<lambda>expected.
      if first_field \<noteq> expected then Inl runtime_error
      else
        bind_err (while_getline comma (AuthorityByYearCSV_year_column yf) ls1 ([], 0)) (\<lambda>r.
        Inr (fst (snd r)))))"

text \<open>
  The body of the loop over \<^verbatim>\<open>allowed_years\<close> for one row (\<^verbatim>\<open>it.first\<close> the column
  index, \<^verbatim>\<open>it.second\<close> the year): an Area that exists and passes the filter gets
  \<^verbatim>\<open>values[it.first]\<close> for the year; when \<^verbatim>\<open>getArea\<close> throws, the entry is skipped.
\<close>

definition AuthorityByYearCSV_store ::
    "regex_lib \<Rightarrow> StringFilterSet option \<Rightarrow> string \<Rightarrow> string \<Rightarrow> string \<Rightarrow> double list
      \<Rightarrow> nat \<times> year \<Rightarrow> Areas \<Rightarrow> error + Areas" where
  "AuthorityByYearCSV_store regex_icase areasFilter measure_code measure_label
       current_area_code vals it areas =
     (let load_all_areas = null_or_empty areasFilter in
      try_catch_out_of_range
        (bind_err (Areas_getArea areas current_area_code) (\<lambda>a.
         bind_err (if load_all_areas then Inr True
                   else checkIfAreaMatchesFilter regex_icase a areasFilter) (\<lambda>matches.
         if matches then
           (case Area_getMeasure a measure_code of
              Inr m \<Rightarrow>
                bind_err (vector_index vals (fst it)) (\<lambda>v.
                Inr (cmap_replace current_area_code
                       (a\<lparr>measures :=
                            cmap_replace (to_lower measure_code)
                              (Measure_setValue (snd it) v m) (measures a)\<rparr>)
                       areas))
            | Inl e \<Rightarrow>
                bind_err (vector_index vals (fst it)) (\<lambda>v.
                let tmp_measure =
                      Measure_setValue (snd it) v (Measure_new measure_code measure_label)
                in Inr (cmap_replace current_area_code
                          (Area_setMeasure (Measure_getCodename tmp_measure) tmp_measure a)
                          areas)))
         else Inr areas)))
        (Inr areas))"

text \<open>The fields after the code, each converted by \<^verbatim>\<open>std::stod\<close> and appended.\<close>

definition AuthorityByYearCSV_values :: "stod_lib \<Rightarrow> istream \<Rightarrow> error + double list" where
  "AuthorityByYearCSV_values stod line_stream =
     bind_err
       (while_getline comma
          (\<lambda>field vals. bind_err (stod field) (\<lambda>d. Inr (vals @ [d])))
          line_stream [])
       (\<lambda>r. Inr (snd r))"

text \<open>The body of the loop over the data rows.\<close>

definition AuthorityByYearCSV_row ::
    "regex_lib \<Rightarrow> stod_lib \<Rightarrow> StringFilterSet option \<Rightarrow> string \<Rightarrow> string \<Rightarrow> (nat, year) cmap
      \<Rightarrow> string \<Rightarrow> Areas \<Rightarrow> error + Areas" where
  "AuthorityByYearCSV_row regex_icase stod areasFilter measure_code measure_label
       allowed_years line_buffer areas =
     (case getline comma (stringstream line_buffer) [] of (ok, ls1, current_area_code) \<Rightarrow>
      bind_err (AuthorityByYearCSV_values stod ls1) (\<lambda>vals.
      for_each
        (AuthorityByYearCSV_store regex_icase areasFilter measure_code measure_label
           current_area_code vals)
        allowed_years areas))"

definition populateFromAuthorityByYearCSV ::
    "regex_lib \<Rightarrow> stod_lib \<Rightarrow> istream \<Rightarrow> SourceColumnMapping \<Rightarrow> StringFilterSet option
      \<Rightarrow> StringFilterSet option \<Rightarrow> YearFilterTuple option \<Rightarrow> Areas
      \<Rightarrow> error + (istream \<times> Areas)" where
  "populateFromAuthorityByYearCSV regex_icase stod is cols areasFilter measuresFilter
       yearsFilter areas =
     bind_err (AuthorityByYearCSV_should_load cols measuresFilter) (\<lambda>should_load.
     if should_load then
       bind_err (cols_at cols SINGLE_MEASURE_CODE) (\<lambda>measure_code.
       bind_err (cols_at cols SINGLE_MEASURE_NAME) (\<lambda>measure_label.
       case getline newline is [] of (ok, is1, line_buffer) \<Rightarrow>
       bind_err (AuthorityByYearCSV_header cols (decode_yearsFilter yearsFilter) line_buffer)
         (\<lambda>allowed_years.
       while_getline newline
         (AuthorityByYearCSV_row regex_icase stod areasFilter measure_code measure_label
            allowed_years)
         is1 areas)))
     else Inr (is, areas))"

subsubsection \<open>\<^verbatim>\<open>Areas::toJSON\<close>\<close>

text \<open>
  \<^verbatim>\<open>j.emplace(key, value)\<close>: a null \<^verbatim>\<open>j\<close> becomes an object; a key already present
  keeps its value; any other kind of \<^verbatim>\<open>j\<close> is a \<^verbatim>\<open>type_error\<close>.
\<close>

definition json_emplace :: "json \<Rightarrow> string \<Rightarrow> json \<Rightarrow> error + json" where
  "json_emplace j key v =
     (case j of
        JNull \<Rightarrow> Inr (JObject [(key, v)])
      | JObject kvs \<Rightarrow> Inr (JObject (fst (cmap_insert key v kvs)))
      | _ \<Rightarrow> Inl json_type_error)"

definition digit_char :: "nat \<Rightarrow> char" where
  "digit_char d = ''0123456789'' ! d"

text \<open>\<^verbatim>\<open>std::to_string\<close> of an unsigned number: its decimal digits.\<close>

fun decimal :: "nat \<Rightarrow> string" where
  "decimal n = (if n < 10 then [digit_char n] else decimal (n div 10) @ [digit_char (n mod 10)])"

declare decimal.simps [simp del]

definition to_string :: "year \<Rightarrow> string" where
  "to_string y = decimal (unat y)"

text \<open>\<^verbatim>\<open>Measure::getValuesAsJSON\<close>: starts from a null value and emplaces every year.\<close>

definition Measure_getValuesAsJSON :: "Measure \<Rightarrow> error + json" where
  "Measure_getValuesAsJSON m =
     for_each (\<lambda>it json_values. json_emplace json_values (to_string (fst it)) (JNumber (snd it)))
       (m_values m) JNull"

text \<open>
  \<^verbatim>\<open>to_json(j, a)\<close>: the names are emplaced into a value that starts as null, the
  Measures likewise but only if there is one, and the result is emplaced into \<^verbatim>\<open>j\<close>
  under the Area's code.
\<close>

definition to_json :: "json \<Rightarrow> Area \<Rightarrow> error + json" where
  "to_json j a =
     bind_err (for_each (\<lambda>it ns. json_emplace ns (fst it) (JString (snd it))) (names a) JNull)
       (\<lambda>names_json.
     bind_err (json_emplace JNull ''names'' names_json) (\<lambda>area_as_json.
     bind_err
       (if measures a \<noteq> [] then
          bind_err
            (for_each
               (\<lambda>it ms. bind_err (Measure_getValuesAsJSON (snd it)) (json_emplace ms (fst it)))
               (measures a) JNull)
            (json_emplace area_as_json ''measures'')
        else Inr area_as_json) (\<lambda>area_as_json'.
     json_emplace j (Area_getLocalAuthorityCode a) area_as_json')))"

text \<open>The value \<^verbatim>\<open>j\<close> that \<^verbatim>\<open>Areas::toJSON\<close> builds, starting from null.\<close>

definition Areas_toJSON_value :: "Areas \<Rightarrow> error + json" where
  "Areas_toJSON_value areas = for_each (\<lambda>it j. to_json j (snd it)) areas JNull"

text \<open>
  \<^verbatim>\<open>Areas::toJSON\<close>. The serialiser \<^verbatim>\<open>json::dump\<close> is a parameter (it can throw a
  \<^verbatim>\<open>type_error\<close> for a string that is not UTF-8).
\<close>

definition Areas_toJSON :: "(json \<Rightarrow> error + string) \<Rightarrow> Areas \<Rightarrow> error + string" where
  "Areas_toJSON dump areas =
     bind_err (Areas_toJSON_value areas) (\<lambda>j.
     bind_err (dump j) (\<lambda>d.
     if d = ''null'' then Inr ''{}'' else dump j))"

subsection \<open>Class invariants\<close>

text \<open>
  What the constructors and member functions establish and keep for every Measure and
  Area: each container is a \<^verbatim>\<open>std::map\<close> (keys strictly ascending); the keys of
  \<^verbatim>\<open>names\<close> are language codes that \<^verbatim>\<open>setName\<close> accepts; the keys of \<^verbatim>\<open>measures\<close> are in
  lower case.
\<close>

definition Measure_inv :: "Measure \<Rightarrow> bool" where
  "Measure_inv m = cmap_inv (m_values m)"

definition Area_inv :: "Area \<Rightarrow> bool" where
  "Area_inv a =
     (cmap_inv (names a) \<and>
      list_all (\<lambda>it. regex_match_iso_639_3 (fst it)) (names a) \<and>
      cmap_inv (measures a) \<and>
      list_all (\<lambda>it. to_lower (fst it) = fst it \<and> Measure_inv (snd it)) (measures a))"

subsection \<open>Notions used to state the properties of the Authority-Code parser\<close>

text \<open>
  Two registries are compared Area by Area: they hold the same codes, and the Areas
  under each code are equal by \<^verbatim>\<open>Area::operator==\<close>.
\<close>

definition Areas_equal :: "Areas \<Rightarrow> Areas \<Rightarrow> bool" where
  "Areas_equal xs ys =
     (map fst xs = map fst ys \<and> list_all2 (\<lambda>x y. Area_eq (snd x) (snd y)) xs ys)"

text \<open>
  What \<^verbatim>\<open>Areas::setArea\<close> does to the registry for the Area that a row of the
  Authority-Code file builds (code, English name, Welsh name, no Measure): the Area is
  inserted, or the Area already stored under the code gets the code and the two names.
  Lemma \<open>Areas_setArea_row\<close> below proves it equal to the code's \<^verbatim>\<open>setArea\<close>.
\<close>

definition AuthorityCodeCSV_merge :: "string \<times> string \<times> string \<Rightarrow> Areas \<Rightarrow> Areas" where
  "AuthorityCodeCSV_merge row areas =
     (case row of (c, eng, cym) \<Rightarrow>
      case map_of areas c of
        None \<Rightarrow>
          cmap_assign c \<lparr>area_code = c, names = [(''cym'', cym), (''eng'', eng)], measures = []\<rparr>
            areas
      | Some old \<Rightarrow>
          cmap_replace c
            (old\<lparr>area_code := c,
                 names := cmap_assign ''eng'' eng (cmap_assign ''cym'' cym (names old))\<rparr>)
            areas)"

subsection \<open>The serialisation in closed form\<close>

text \<open>
  What the loops of \<^verbatim>\<open>Areas::toJSON\<close>, \<^verbatim>\<open>to_json\<close> and \<^verbatim>\<open>Measure::getValuesAsJSON\<close>
  leave behind, written without the loops; the section on \<^verbatim>\<open>Areas::toJSON\<close> below shows
  that the code computes these values. A value into which a loop emplaces its entries
  starts as null and becomes an object with the first entry, so it is still null after
  a loop over no entries.
\<close>

definition emplaced :: "(string \<times> json) list \<Rightarrow> json" where
  "emplaced kvs = (if kvs = [] then JNull else JObject kvs)"

definition names_emplaced :: "Area \<Rightarrow> json" where
  "names_emplaced a = emplaced (map (\<lambda>it. (fst it, JString (snd it))) (names a))"

definition values_emplaced :: "Measure \<Rightarrow> json" where
  "values_emplaced m =
     emplaced (sort_key fst (map (\<lambda>it. (to_string (fst it), JNumber (snd it))) (m_values m)))"

definition area_emplaced :: "Area \<Rightarrow> json" where
  "area_emplaced a =
     JObject
       ((if measures a = [] then []
         else [(''measures'',
                JObject (map (\<lambda>it. (fst it, values_emplaced (snd it))) (measures a)))])
        @ [(''names'', names_emplaced a)])"

definition registry_emplaced :: "Areas \<Rightarrow> json" where
  "registry_emplaced areas = emplaced (map (\<lambda>it. (fst it, area_emplaced (snd it))) areas)"

subsection \<open>The serialisation as the specification describes it\<close>

text \<open>
  The JSON value the registry is specified to serialise to, written from the words of
  the specification and not from the code: an object that holds, per Area code, an
  object with a map of the names under \<^verbatim>\<open>names\<close> and, only if the Area has at least one
  Measure, under \<^verbatim>\<open>measures\<close> a map from codename to the map from year string to value.
  A map is a JSON object, also when it has no entry, and the registry without Areas is
  the empty object. Objects list their members in key order.
\<close>

definition names_json :: "Area \<Rightarrow> json" where
  "names_json a = JObject (map (\<lambda>it. (fst it, JString (snd it))) (names a))"

definition values_json :: "Measure \<Rightarrow> json" where
  "values_json m =
     JObject (sort_key fst (map (\<lambda>it. (to_string (fst it), JNumber (snd it))) (m_values m)))"

definition area_json :: "Area \<Rightarrow> json" where
  "area_json a =
     JObject
       ((if measures a = [] then []
         else [(''measures'', JObject (map (\<lambda>it. (fst it, values_json (snd it))) (measures a)))])
        @ [(''names'', names_json a)])"

definition registry_json :: "Areas \<Rightarrow> json" where
  "registry_json areas = JObject (map (\<lambda>it. (fst it, area_json (snd it))) areas)"

subsection \<open>Library instances for concrete runs\<close>

text \<open>
  The parsers take the regular-expression matcher and \<^verbatim>\<open>std::stod\<close> as parameters.
  The two instances below are used where a run is evaluated on concrete data. They
  agree with the C++ library on the inputs used there: filter tokens without regex
  metacharacters, for which the pattern \<^verbatim>\<open>^.*token.*$\<close> matches the strings that contain
  the token, letter case ignored; and decimal integer literals, for which
  \<^verbatim>\<open>std::stod\<close> returns the integer, while a text without a leading number makes it throw
  \<^verbatim>\<open>std::invalid_argument\<close>.
\<close>

fun contains :: "string \<Rightarrow> string \<Rightarrow> bool" where
  "contains [] token = (token = [])"
| "contains (c # cs) token = (take (length token) (c # cs) = token \<or> contains cs token)"

definition regex_icase_token :: regex_lib where
  "regex_icase_token pattern =
     Some (\<lambda>subject.
       contains (to_lower subject) (to_lower (take (length pattern - 6) (drop 3 pattern))))"

definition stod_integer :: stod_lib where
  "stod_integer str = bind_err (stoi str) (\<lambda>n. Inr (Finite (real_of_int n)))"

text \<open>
  An instance of the serialiser parameter of \<open>Areas_toJSON\<close>, defined on the null value
  only, which \<^verbatim>\<open>json::dump\<close> writes as \<^verbatim>\<open>null\<close>.
\<close>

definition json_dump_null :: "json \<Rightarrow> error + string" where
  "json_dump_null j = (case j of JNull \<Rightarrow> Inr ''null'' | _ \<Rightarrow> Inl json_type_error)"

section \<open>Properties\<close>

subsection \<open>The map operations\<close>

lemma map_of_cmap_assign: "map_of (cmap_assign k v m) = (map_of m)(k \<mapsto> v)"
  by (induction m) (auto simp: fun_eq_iff)

lemma cmap_insert_absent:
  "map_of m k = None \<Longrightarrow> cmap_insert k v m = (cmap_assign k v m, True)"
  by (induction m) (auto split: prod.splits)

lemma cmap_insert_then_assign:
  "(case cmap_insert k v m of (m', did) \<Rightarrow> if \<not> did then cmap_assign k v m' else m')
     = cmap_assign k v m"
  by (induction m) (auto split: prod.splits)

lemma map_of_cmap_replace:
  "map_of (cmap_replace k v m) =
     (if map_of m k = None then map_of m else (map_of m)(k \<mapsto> v))"
  by (induction m) (auto simp: fun_eq_iff)

lemma Measure_setValue_eq:
  "Measure_setValue key v m = m\<lparr>m_values := cmap_assign key v (m_values m)\<rparr>"
  using cmap_insert_then_assign [of key v "m_values m"]
  by (auto simp: Measure_setValue_def split: prod.splits if_splits)

subsection \<open>Lower case\<close>

lemma lower_case_letters_fixed:
  "\<forall>l \<in> set ''abcdefghijklmnopqrstuvwxyz''.
     map_of (zip ''ABCDEFGHIJKLMNOPQRSTUVWXYZ'' ''abcdefghijklmnopqrstuvwxyz'') l = None"
  by code_simp

lemma tolower_idem: "tolower (tolower c) = tolower c"
proof (cases "map_of (zip ''ABCDEFGHIJKLMNOPQRSTUVWXYZ'' ''abcdefghijklmnopqrstuvwxyz'') c")
  case None
  then show ?thesis by (simp add: tolower_def)
next
  case (Some l)
  then have "l \<in> set ''abcdefghijklmnopqrstuvwxyz''"
    by (meson map_of_SomeD set_zip_rightD)
  then have "map_of (zip ''ABCDEFGHIJKLMNOPQRSTUVWXYZ'' ''abcdefghijklmnopqrstuvwxyz'') l = None"
    using lower_case_letters_fixed by blast
  with Some show ?thesis by (simp add: tolower_def)
qed

lemma to_lower_idem: "to_lower (to_lower s) = to_lower s"
  by (simp add: to_lower_def tolower_idem)

subsection \<open>Measure\<close>

text \<open>
  C1. \<^verbatim>\<open>Measure::getAverage\<close> on a Measure without values: the sum 0 is divided by the
  size 0, and the result is NaN, not the 0 that the function's documentation promises
  for an average that cannot be calculated.
\<close>

theorem getAverage_empty_series_is_NaN:
  "Measure_getAverage (m\<lparr>m_values := []\<rparr>) = NaN \<and>
   Measure_getAverage (m\<lparr>m_values := []\<rparr>) \<noteq> Finite 0"
  by (simp add: Measure_getAverage_def)

text \<open>
  For a Measure with values, all of them finite, the function returns their arithmetic
  mean. This holds in the idealised arithmetic of \<open>double\<close>, that is, as long as the
  sum of the values in the code neither rounds nor overflows.
\<close>

lemma fold_dplus_finite:
  "fold (\<lambda>it acc. dplus acc (snd it)) (map (\<lambda>p. (fst p, Finite (snd p))) ps) (Finite a)
     = Finite (a + sum_list (map snd ps))"
  by (induction ps arbitrary: a) (simp_all add: add.assoc)

lemma Measure_getAverage_finite:
  assumes "m_values m = map (\<lambda>p. (fst p, Finite (snd p))) ps" and "ps \<noteq> []"
  shows "Measure_getAverage m = Finite (sum_list (map snd ps) / real (length ps))"
  using assms by (simp add: Measure_getAverage_def fold_dplus_finite)

subsection \<open>Area\<close>

text \<open>
  C8. Measure codenames are case-insensitive: when two keys agree in lower case,
  \<^verbatim>\<open>getMeasure\<close> under one of them, after \<^verbatim>\<open>setMeasure\<close> under the other, succeeds and
  returns the merged state: the given Measure itself if the Area had none under the
  lower-cased key, and otherwise the old Measure updated by \<^verbatim>\<open>Measure::operator=\<close>.
\<close>

theorem setMeasure_then_getMeasure_ignores_case:
  assumes "to_lower key1 = to_lower key2"
  shows "Area_getMeasure (Area_setMeasure key1 m a) key2 =
         Inr (case Area_getMeasure a (to_lower key1) of
                Inr old \<Rightarrow> Measure_assign old m
              | Inl e \<Rightarrow> m)"
proof (cases "map_of (measures a) (to_lower key1)")
  case None
  then show ?thesis
    using assms
    by (simp add: Area_getMeasure_def Area_setMeasure_def cmap_at_def to_lower_idem Let_def
          cmap_insert_absent map_of_cmap_assign)
next
  case (Some old)
  then show ?thesis
    using assms
    by (simp add: Area_getMeasure_def Area_setMeasure_def cmap_at_def to_lower_idem Let_def
          map_of_cmap_replace)
qed

theorem setMeasure_then_getMeasure_ignores_case_witness:
  "to_lower ''Pop'' = to_lower ''POP'' \<and>
   Area_getMeasure
     (Area_setMeasure ''Pop''
        (Measure_setValue 2001 (Finite 2) (Measure_new ''Pop'' ''Population''))
        (Area_setMeasure ''pop''
           (Measure_setValue 2000 (Finite 1) (Measure_new ''pop'' ''People''))
           (Area_new ''W06000011'')))
     ''POP''
   = Inr \<lparr>m_code = ''pop'', m_label = ''Population'',
          m_values = [(2000, Finite 1), (2001, Finite 2)]\<rparr>"
proof -
  have h: "to_lower ''Pop'' = to_lower ''POP''"
    by (simp add: to_lower_def tolower_def)
  show ?thesis
    using h setMeasure_then_getMeasure_ignores_case [OF h,
      of "Measure_setValue 2001 (Finite 2) (Measure_new ''Pop'' ''Population'')"
         "Area_setMeasure ''pop''
            (Measure_setValue 2000 (Finite 1) (Measure_new ''pop'' ''People''))
            (Area_new ''W06000011'')"]
    by (simp add: to_lower_def tolower_def Area_getMeasure_def Area_setMeasure_def cmap_at_def
          Area_new_def Measure_new_def Measure_setValue_def Measure_assign_def
          Measure_getCodename_def Measure_getLabel_def)
qed

subsection \<open>The year filter\<close>

text \<open>What the decoded year filter lets through, in each of the two parsers.\<close>

lemma WelshStatsJSON_should_load_years:
  "WelshStatsJSON_should_load None (decode_yearsFilter (Some (year_range_start, year_range_end))) r
     = (year_range_end = 0 \<or>
        (year_range_start \<le> current_year r \<and> current_year r \<le> year_range_end))"
  by (simp add: WelshStatsJSON_should_load_def decode_yearsFilter_def null_or_empty_def)

lemma AuthorityByYearCSV_year_column_retained:
  assumes "stoi field = Inr n"
  shows "AuthorityByYearCSV_year_column
           (decode_yearsFilter (Some (year_range_start, year_range_end))) field (allowed_years, i)
         = Inr (if year_range_end = 0 \<or>
                   (year_range_start \<le> to_unsigned n \<and> to_unsigned n \<le> year_range_end)
                then fst (cmap_insert i (to_unsigned n) allowed_years) else allowed_years,
                i + 1)"
  using assms
  by (auto simp: AuthorityByYearCSV_year_column_def decode_yearsFilter_def bind_err_def Let_def)

text \<open>
  C2. The year filter \<open>(2000, 0)\<close> is not the all-years value \<open>(0, 0)\<close>, and no year lies
  between 2000 and 0; yet both parsers import the year 1990 under it, because they
  load every year as soon as the second component is 0. In the CSV run the Area
  \<open>W1\<close> of the registry receives the value of the 1990 column; in the JSON run the
  element of year 1990 creates the Area with its value.
\<close>

theorem years_filter_with_end_zero_imports_every_year:
  "populateFromAuthorityByYearCSV regex_icase_token stod_integer
     \<lparr>is_buf = ''code,1990'' @ [newline] @ ''W1,10'', is_good = True\<rparr>
     [AUTH_CODE \<mapsto> ''code'', SINGLE_MEASURE_CODE \<mapsto> ''pop'',
      SINGLE_MEASURE_NAME \<mapsto> ''Population'']
     None None (Some (2000, 0))
     [(''W1'', Area_new ''W1'')]
   = Inr (\<lparr>is_buf = [], is_good = False\<rparr>,
          [(''W1'', \<lparr>area_code = ''W1'', names = [],
              measures = [(''pop'', \<lparr>m_code = ''pop'', m_label = ''Population'',
                                     m_values = [(1990, Finite 10)]\<rparr>)]\<rparr>)])
   \<and>
   populateFromWelshStatsJSON regex_icase_token stod_integer
     (JObject [(''value'', JArray [JObject
        [(''code'', JString ''W1''), (''eng'', JString ''Test''), (''year'', JString ''1990''),
         (''value'', JString ''10''), (''mcode'', JString ''pop''),
         (''mname'', JString ''Population'')]])])
     [AUTH_CODE \<mapsto> ''code'', AUTH_NAME_ENG \<mapsto> ''eng'', YEAR \<mapsto> ''year'',
      VALUE \<mapsto> ''value'', MEASURE_CODE \<mapsto> ''mcode'', MEASURE_NAME \<mapsto> ''mname'']
     None None (Some (2000, 0))
     []
   = Inr [(''W1'', \<lparr>area_code = ''W1'', names = [(''eng'', ''Test'')],
              measures = [(''pop'', \<lparr>m_code = ''pop'', m_label = ''Population'',
                                     m_values = [(1990, Finite 10)]\<rparr>)]\<rparr>)]"
  by code_simp

subsection \<open>\<^verbatim>\<open>populateFromAuthorityByYearCSV\<close>\<close>

lemma should_load_loop_no_match:
  assumes "cols SINGLE_MEASURE_CODE = Some code" and "\<forall>it \<in> set f. to_lower it \<noteq> to_lower code"
  shows "for_each
           (\<lambda>it should_load.
              bind_err (cols_at cols SINGLE_MEASURE_CODE) (\<lambda>tmp.
              Inr (if to_lower tmp = to_lower it then True else should_load)))
           f b = Inr b"
  using assms by (induction f arbitrary: b) (auto simp: bind_err_def cols_at_def)

text \<open>
  C6. With a non-empty measures filter none of whose entries equals, in lower case, the
  \<^verbatim>\<open>SINGLE_MEASURE_CODE\<close> of the column mapping, the whole file is skipped: the result is
  the stream as it was given, with nothing read from it, and the registry unchanged.
\<close>

theorem AuthorityByYearCSV_skips_file_of_unselected_measure:
  assumes "measuresFilter = Some f" and "f \<noteq> []"
    and "cols SINGLE_MEASURE_CODE = Some code"
    and "\<forall>it \<in> set f. to_lower it \<noteq> to_lower code"
  shows "populateFromAuthorityByYearCSV regex_icase stod is cols areasFilter measuresFilter
           yearsFilter areas = Inr (is, areas)"
proof -
  have "AuthorityByYearCSV_should_load cols measuresFilter = Inr False"
    using assms should_load_loop_no_match [of cols code f False]
    by (simp add: AuthorityByYearCSV_should_load_def null_or_empty_def try_catch_out_of_range_def)
  then show ?thesis
    by (simp add: populateFromAuthorityByYearCSV_def bind_err_def)
qed

theorem AuthorityByYearCSV_skips_file_of_unselected_measure_witness:
  "Some [''Dens''] = Some [''Dens''] \<and> [''Dens''] \<noteq> [] \<and>
   [SINGLE_MEASURE_CODE \<mapsto> ''pop''] SINGLE_MEASURE_CODE = Some ''pop'' \<and>
   list_all (\<lambda>it. to_lower it \<noteq> to_lower ''pop'') [''Dens''] \<and>
   populateFromAuthorityByYearCSV regex_icase_token stod_integer
     \<lparr>is_buf = ''code,1990'' @ [newline] @ ''W1,10'', is_good = True\<rparr>
     [SINGLE_MEASURE_CODE \<mapsto> ''pop''] None (Some [''Dens'']) None [(''W1'', Area_new ''W1'')]
   = Inr (\<lparr>is_buf = ''code,1990'' @ [newline] @ ''W1,10'', is_good = True\<rparr>,
          [(''W1'', Area_new ''W1'')])"
proof -
  have h: "\<forall>it \<in> set [''Dens'']. to_lower it \<noteq> to_lower ''pop''"
    by (simp add: to_lower_def tolower_def)
  show ?thesis
    using h AuthorityByYearCSV_skips_file_of_unselected_measure
      [of "Some [''Dens'']" "[''Dens'']" "[SINGLE_MEASURE_CODE \<mapsto> ''pop'']" "''pop''"
          regex_icase_token stod_integer
          "\<lparr>is_buf = ''code,1990'' @ [newline] @ ''W1,10'', is_good = True\<rparr>"
          None None "[(''W1'', Area_new ''W1'')]"]
    by simp
qed




text \<open>
  In general, an exception of the conversion of the value fields is the result of the
  row, whether the Area exists or not.
\<close>

lemma AuthorityByYearCSV_row_values_error:
  assumes "getline comma (stringstream line_buffer) [] = (ok, ls, current_area_code)"
    and "AuthorityByYearCSV_values stod ls = Inl e"
  shows "AuthorityByYearCSV_row regex_icase stod areasFilter measure_code measure_label
           allowed_years line_buffer areas = Inl e"
  using assms by (simp add: AuthorityByYearCSV_row_def bind_err_def)



lemma filter_token_error:
  "for_each (checkIfAreaMatchesFilter_token regex_icase a) f b = Inl e \<Longrightarrow> e = regex_error"
  by (induction f arbitrary: b)
     (auto simp: checkIfAreaMatchesFilter_token_def Let_def split: option.splits if_splits sum.splits)

lemma checkIfAreaMatchesFilter_error:
  "checkIfAreaMatchesFilter regex_icase a f = Inl e \<Longrightarrow> e = regex_error"
  by (auto simp: checkIfAreaMatchesFilter_def filter_token_error split: option.splits if_splits)

lemma checkIfAreaMatchesFilter_cong:
  assumes "area_code a = area_code a'" and "names a = names a'"
  shows "checkIfAreaMatchesFilter regex_icase a f = checkIfAreaMatchesFilter regex_icase a' f"
proof -
  have eq: "checkIfAreaMatchesFilter_token regex_icase a = checkIfAreaMatchesFilter_token regex_icase a'"
    unfolding checkIfAreaMatchesFilter_token_def assms by (rule refl)
  show ?thesis
    unfolding checkIfAreaMatchesFilter_def eq by (rule refl)
qed

lemma Area_setMeasure_frame:
  "area_code (Area_setMeasure k m a) = area_code a \<and> names (Area_setMeasure k m a) = names a"
  by (simp add: Area_setMeasure_def Let_def split: sum.splits)

lemma store_in_bounds:
  assumes "fst it < length vals"
  shows "AuthorityByYearCSV_store regex_icase areasFilter measure_code measure_label
           current_area_code vals it areas \<noteq> Inl vector_out_of_bounds"
proof (cases "map_of areas current_area_code")
  case None
  then show ?thesis
    by (simp add: AuthorityByYearCSV_store_def Areas_getArea_def cmap_at_def bind_err_def
        try_catch_out_of_range_def)
next
  case (Some a)
  show ?thesis
  proof (cases "if null_or_empty areasFilter then Inr True
                else checkIfAreaMatchesFilter regex_icase a areasFilter")
    case (Inl e)
    then have "e = regex_error"
      by (auto dest: checkIfAreaMatchesFilter_error split: if_splits)
    with Inl Some show ?thesis
      by (simp add: AuthorityByYearCSV_store_def Areas_getArea_def cmap_at_def bind_err_def
          try_catch_out_of_range_def)
  next
    case (Inr matches)
    with Some assms show ?thesis
      by (simp add: AuthorityByYearCSV_store_def Areas_getArea_def cmap_at_def bind_err_def
          try_catch_out_of_range_def vector_index_def Let_def split: sum.splits)
  qed
qed

lemma store_existing_in_bounds:
  assumes "map_of areas current_area_code = Some a"
    and "null_or_empty areasFilter \<or> checkIfAreaMatchesFilter regex_icase a areasFilter = Inr True"
    and "fst it < length vals"
  shows "\<exists>a'. AuthorityByYearCSV_store regex_icase areasFilter measure_code measure_label
           current_area_code vals it areas = Inr (cmap_replace current_area_code a' areas)
           \<and> area_code a' = area_code a \<and> names a' = names a"
  using assms
  by (auto simp: AuthorityByYearCSV_store_def Areas_getArea_def cmap_at_def bind_err_def
        try_catch_out_of_range_def vector_index_def Let_def Area_setMeasure_frame split: sum.splits)

lemma store_existing_out_of_bounds:
  assumes "map_of areas current_area_code = Some a"
    and "null_or_empty areasFilter \<or> checkIfAreaMatchesFilter regex_icase a areasFilter = Inr True"
    and "\<not> fst it < length vals"
  shows "AuthorityByYearCSV_store regex_icase areasFilter measure_code measure_label
           current_area_code vals it areas = Inl vector_out_of_bounds"
  using assms
  by (auto simp: AuthorityByYearCSV_store_def Areas_getArea_def cmap_at_def bind_err_def
        try_catch_out_of_range_def vector_index_def Let_def split: sum.splits)

lemma for_each_store_in_bounds:
  assumes "\<forall>it \<in> set allowed_years. fst it < length vals"
  shows "for_each (AuthorityByYearCSV_store regex_icase areasFilter measure_code measure_label
           current_area_code vals) allowed_years areas \<noteq> Inl vector_out_of_bounds"
  using assms
proof (induction allowed_years arbitrary: areas)
  case Nil
  then show ?case by simp
next
  case (Cons it rest)
  then show ?case
    using store_in_bounds [of it vals regex_icase areasFilter measure_code measure_label
        current_area_code areas]
    by (auto split: sum.splits)
qed

lemma for_each_store_out_of_bounds:
  assumes "map_of areas current_area_code = Some a"
    and "null_or_empty areasFilter \<or> checkIfAreaMatchesFilter regex_icase a areasFilter = Inr True"
    and "\<exists>it \<in> set allowed_years. \<not> fst it < length vals"
  shows "for_each (AuthorityByYearCSV_store regex_icase areasFilter measure_code measure_label
           current_area_code vals) allowed_years areas = Inl vector_out_of_bounds"
  using assms
proof (induction allowed_years arbitrary: areas a)
  case Nil
  then show ?case by simp
next
  case (Cons it rest)
  show ?case
  proof (cases "fst it < length vals")
    case False
    then show ?thesis
      using store_existing_out_of_bounds [OF Cons.prems(1,2)] by simp
  next
    case True
    obtain a' where step: "AuthorityByYearCSV_store regex_icase areasFilter measure_code
          measure_label current_area_code vals it areas
          = Inr (cmap_replace current_area_code a' areas)"
      and frame: "area_code a' = area_code a" "names a' = names a"
      using store_existing_in_bounds [OF Cons.prems(1,2) True] by blast
    have present: "map_of (cmap_replace current_area_code a' areas) current_area_code = Some a'"
      using Cons.prems(1) by (simp add: map_of_cmap_replace)
    have passes: "null_or_empty areasFilter \<or>
        checkIfAreaMatchesFilter regex_icase a' areasFilter = Inr True"
      using Cons.prems(2) checkIfAreaMatchesFilter_cong [OF frame] by simp
    have "\<exists>it \<in> set rest. \<not> fst it < length vals"
      using Cons.prems(3) True by auto
    from Cons.IH [OF present passes this] step show ?thesis
      by simp
  qed
qed

text \<open>
  C10. The lookup \<^verbatim>\<open>values[it.first]\<close> of a data row, for the retained year columns.
  If every retained column index is below the number of value fields of the row, the
  row never reaches the out-of-bounds result. If the row's Area exists and passes the
  areas filter, the row ends in the out-of-bounds result exactly when some retained
  column index is not below the number of value fields: a shorter row is neither
  detected nor skipped.
\<close>

theorem AuthorityByYearCSV_row_index_in_bounds_iff_aligned:
  assumes "getline comma (stringstream line_buffer) [] = (ok, ls, current_area_code)"
    and "AuthorityByYearCSV_values stod ls = Inr vals"
  shows "((\<forall>it \<in> set allowed_years. fst it < length vals) \<longrightarrow>
            AuthorityByYearCSV_row regex_icase stod areasFilter measure_code measure_label
              allowed_years line_buffer areas \<noteq> Inl vector_out_of_bounds) \<and>
         (\<forall>a. Areas_getArea areas current_area_code = Inr a \<and>
               (null_or_empty areasFilter \<or>
                checkIfAreaMatchesFilter regex_icase a areasFilter = Inr True) \<longrightarrow>
            (AuthorityByYearCSV_row regex_icase stod areasFilter measure_code measure_label
               allowed_years line_buffer areas = Inl vector_out_of_bounds)
            = (\<not> (\<forall>it \<in> set allowed_years. fst it < length vals)))"
proof -
  have row: "AuthorityByYearCSV_row regex_icase stod areasFilter measure_code measure_label
               allowed_years line_buffer areas
             = for_each (AuthorityByYearCSV_store regex_icase areasFilter measure_code
                 measure_label current_area_code vals) allowed_years areas"
    using assms by (simp add: AuthorityByYearCSV_row_def bind_err_def)
  have present: "map_of areas current_area_code = Some a"
    if "Areas_getArea areas current_area_code = Inr a" for a
    using that by (simp add: Areas_getArea_def cmap_at_def split: option.splits)
  show ?thesis
    unfolding row
    using for_each_store_in_bounds for_each_store_out_of_bounds present
    by blast
qed

theorem AuthorityByYearCSV_row_index_in_bounds_iff_aligned_witness:
  "getline comma (stringstream ''W1,10'') []
     = (True, \<lparr>is_buf = ''10'', is_good = True\<rparr>, ''W1'') \<and>
   AuthorityByYearCSV_values stod_integer \<lparr>is_buf = ''10'', is_good = True\<rparr>
     = Inr [Finite 10] \<and>
   list_all (\<lambda>it. fst it < length [Finite 10]) [(0, 2000::year)] \<and>
   AuthorityByYearCSV_row regex_icase_token stod_integer None ''pop'' ''Population''
     [(0, 2000)] ''W1,10'' [(''W1'', Area_new ''W1'')] \<noteq> Inl vector_out_of_bounds \<and>
   Areas_getArea [(''W1'', Area_new ''W1'')] ''W1'' = Inr (Area_new ''W1'') \<and>
   null_or_empty None \<and>
   \<not> list_all (\<lambda>it. fst it < length [Finite 10]) [(0, 2000::year), (1, 2001)] \<and>
   AuthorityByYearCSV_row regex_icase_token stod_integer None ''pop'' ''Population''
     [(0, 2000), (1, 2001)] ''W1,10'' [(''W1'', Area_new ''W1'')] = Inl vector_out_of_bounds"
proof -
  have h1: "getline comma (stringstream ''W1,10'') []
     = (True, \<lparr>is_buf = ''10'', is_good = True\<rparr>, ''W1'')"
    by (simp add: getline_def comma_def stringstream_def)
  have h2: "AuthorityByYearCSV_values stod_integer \<lparr>is_buf = ''10'', is_good = True\<rparr>
     = Inr [Finite 10]"
    by code_simp
  have h3: "Areas_getArea [(''W1'', Area_new ''W1'')] ''W1'' = Inr (Area_new ''W1'')"
    by (simp add: Areas_getArea_def cmap_at_def)
  have h4: "null_or_empty None"
    by (simp add: null_or_empty_def)
  show ?thesis
    using h1 h2 h3 h4
      AuthorityByYearCSV_row_index_in_bounds_iff_aligned [OF h1 h2,
        of "[(0, 2000)]" regex_icase_token None "''pop''" "''Population''"
           "[(''W1'', Area_new ''W1'')]"]
      AuthorityByYearCSV_row_index_in_bounds_iff_aligned [OF h1 h2,
        of "[(0, 2000), (1, 2001)]" regex_icase_token None "''pop''" "''Population''"
           "[(''W1'', Area_new ''W1'')]"]
    by simp
qed

subsection \<open>\<^verbatim>\<open>populateFromWelshStatsJSON\<close>\<close>

lemma Measure_getValue_setValue:
  "Measure_getValue (Measure_setValue y v m) y = Inr v"
  by (simp add: Measure_setValue_eq Measure_getValue_def cmap_at_def map_of_cmap_assign)

lemma Area_getMeasure_replace:
  assumes "Area_getMeasure a key = Inr m"
  shows "Area_getMeasure (a\<lparr>measures := cmap_replace (to_lower key) m' (measures a)\<rparr>) key' =
           (if to_lower key' = to_lower key then Inr m' else Area_getMeasure a key')"
  using assms
  by (auto simp: Area_getMeasure_def cmap_at_def map_of_cmap_replace Let_def split: option.splits)

lemma Area_getMeasure_setMeasure_new:
  assumes "Area_getMeasure a key = Inl e"
  shows "Area_getMeasure (Area_setMeasure (to_lower key) m' a) key' =
           (if to_lower key' = to_lower key then Inr m' else Area_getMeasure a key')"
proof -
  have absent: "map_of (measures a) (to_lower key) = None"
    using assms by (simp add: Area_getMeasure_def cmap_at_def Let_def split: option.splits)
  then show ?thesis
    by (simp add: Area_getMeasure_def Area_setMeasure_def cmap_at_def Let_def to_lower_idem
          cmap_insert_absent map_of_cmap_assign)
qed

text \<open>
  C3, as the claim states it, fails: the element below passes the year and measures
  filters (there are none) and its code \<open>W1\<close> has an Area in the registry, but that Area
  does not match the areas filter \<open>{zzz}\<close>, and the value is not stored: the registry comes
  back as it was, the Area still without a Measure.
\<close>

theorem WelshStatsJSON_filtered_area_keeps_value_out:
  "populateFromWelshStatsJSON regex_icase_token stod_integer
     (JObject [(''value'', JArray [JObject
        [(''code'', JString ''W1''), (''eng'', JString ''Test''), (''year'', JString ''2000''),
         (''value'', JNumber (Finite 5.5)), (''mcode'', JString ''pop''),
         (''mname'', JString ''Population'')]])])
     [AUTH_CODE \<mapsto> ''code'', AUTH_NAME_ENG \<mapsto> ''eng'', YEAR \<mapsto> ''year'',
      VALUE \<mapsto> ''value'', MEASURE_CODE \<mapsto> ''mcode'', MEASURE_NAME \<mapsto> ''mname'']
     (Some [''zzz'']) None None
     [(''W1'', \<lparr>area_code = ''W1'', names = [(''eng'', ''Test'')], measures = []\<rparr>)]
   = Inr [(''W1'', \<lparr>area_code = ''W1'', names = [(''eng'', ''Test'')], measures = []\<rparr>)]"
  by code_simp

text \<open>
  C3, amended. An element that is loaded (it passes the year and measures filters),
  whose authority code has an Area in the registry that passes the areas filter (the
  filter is null or empty, or \<^verbatim>\<open>checkIfAreaMatchesFilter\<close> holds for the Area): the
  Area is updated in place; its Measure of the element's code, a new one if the Area
  had none, has the element's value for the element's year; the Area's code and names
  and its other Measures are as before.
\<close>

theorem WelshStatsJSON_element_sets_value_in_existing_area:
  assumes "WelshStatsJSON_extract stod cols data = Inr r"
    and "WelshStatsJSON_should_load measuresFilter yf r"
    and "Areas_getArea areas (current_local_auth_code r) = Inr a"
    and "null_or_empty areasFilter \<or> checkIfAreaMatchesFilter regex_icase a areasFilter = Inr True"
  shows "\<exists>a' m'.
           WelshStatsJSON_element regex_icase stod cols areasFilter measuresFilter yf data areas
             = Inr (cmap_replace (current_local_auth_code r) a' areas) \<and>
           Areas_getArea (cmap_replace (current_local_auth_code r) a' areas)
             (current_local_auth_code r) = Inr a' \<and>
           area_code a' = area_code a \<and> names a' = names a \<and>
           Area_getMeasure a' (current_measure_code r) = Inr m' \<and>
           m' = Measure_setValue (current_year r) (current_value r)
                  (case Area_getMeasure a (current_measure_code r) of
                     Inr m \<Rightarrow> m
                   | Inl e \<Rightarrow> Measure_new (current_measure_code r) (current_measure_label r)) \<and>
           Measure_getValue m' (current_year r) = Inr (current_value r) \<and>
           (\<forall>key. to_lower key \<noteq> to_lower (current_measure_code r) \<longrightarrow>
                  Area_getMeasure a' key = Area_getMeasure a key)"
proof -
  let ?c = "current_local_auth_code r"
  let ?k = "current_measure_code r"
  have present: "map_of areas ?c = Some a"
    using assms(3) by (simp add: Areas_getArea_def cmap_at_def split: option.splits)
  have matches: "(if null_or_empty areasFilter then Inr True
                  else checkIfAreaMatchesFilter regex_icase a areasFilter) = Inr True"
    using assms(4) by auto
  have lookup: "Areas_getArea (cmap_replace ?c a' areas) ?c = Inr a'" for a'
    using present by (simp add: Areas_getArea_def cmap_at_def map_of_cmap_replace)
  show ?thesis
  proof (cases "Area_getMeasure a ?k")
    case (Inr m)
    let ?m' = "Measure_setValue (current_year r) (current_value r) m"
    let ?a' = "a\<lparr>measures := cmap_replace (to_lower ?k) ?m' (measures a)\<rparr>"
    have run: "WelshStatsJSON_element regex_icase stod cols areasFilter measuresFilter yf data areas
                 = Inr (cmap_replace ?c ?a' areas)"
      using assms(1,2,3) matches Inr
      by (simp add: WelshStatsJSON_element_def WelshStatsJSON_merge_def bind_err_def
            try_catch_out_of_range_def)
    show ?thesis
      using run lookup [of ?a'] Inr Area_getMeasure_replace [OF Inr, of ?m']
        Measure_getValue_setValue [of "current_year r" "current_value r" m]
      by (intro exI [of _ ?a'] exI [of _ ?m']) simp
  next
    case (Inl e)
    let ?m' = "Measure_setValue (current_year r) (current_value r)
                 (Measure_new ?k (current_measure_label r))"
    let ?a' = "Area_setMeasure (to_lower ?k) ?m' a"
    have codename: "Measure_getCodename ?m' = to_lower ?k"
      by (simp add: Measure_getCodename_def Measure_setValue_eq Measure_new_def)
    have run: "WelshStatsJSON_element regex_icase stod cols areasFilter measuresFilter yf data areas
                 = Inr (cmap_replace ?c ?a' areas)"
      using assms(1,2,3) matches Inl codename
      by (simp add: WelshStatsJSON_element_def WelshStatsJSON_merge_def bind_err_def
            try_catch_out_of_range_def Let_def)
    have frame: "area_code ?a' = area_code a \<and> names ?a' = names a"
      by (simp add: Area_setMeasure_frame)
    show ?thesis
      using run lookup [of ?a'] Inl Area_getMeasure_setMeasure_new [OF Inl, of ?m'] frame
        Measure_getValue_setValue [of "current_year r" "current_value r"
          "Measure_new ?k (current_measure_label r)"]
      by (intro exI [of _ ?a'] exI [of _ ?m']) simp
  qed
qed

theorem WelshStatsJSON_element_sets_value_in_existing_area_witness:
  "WelshStatsJSON_extract stod_integer
     [AUTH_CODE \<mapsto> ''code'', AUTH_NAME_ENG \<mapsto> ''eng'', YEAR \<mapsto> ''year'',
      VALUE \<mapsto> ''value'', MEASURE_CODE \<mapsto> ''mcode'', MEASURE_NAME \<mapsto> ''mname'']
     (JObject
        [(''code'', JString ''W1''), (''eng'', JString ''Test''), (''year'', JString ''2000''),
         (''value'', JNumber (Finite 5.5)), (''mcode'', JString ''pop''),
         (''mname'', JString ''Population'')])
   = Inr \<lparr>current_local_auth_code = ''W1'', current_area_name_eng = ''Test'',
          current_year = 2000, current_value = Finite 5.5, current_measure_code = ''pop'',
          current_measure_label = ''Population''\<rparr> \<and>
   WelshStatsJSON_should_load None (decode_yearsFilter None)
     \<lparr>current_local_auth_code = ''W1'', current_area_name_eng = ''Test'',
      current_year = 2000, current_value = Finite 5.5, current_measure_code = ''pop'',
      current_measure_label = ''Population''\<rparr> \<and>
   Areas_getArea
     [(''W1'', \<lparr>area_code = ''W1'', names = [(''cym'', ''Prawf''), (''eng'', ''Test'')],
               measures = []\<rparr>)] ''W1''
   = Inr \<lparr>area_code = ''W1'', names = [(''cym'', ''Prawf''), (''eng'', ''Test'')],
          measures = []\<rparr> \<and>
   null_or_empty None \<and>
   (\<exists>a'. WelshStatsJSON_element regex_icase_token stod_integer
       [AUTH_CODE \<mapsto> ''code'', AUTH_NAME_ENG \<mapsto> ''eng'', YEAR \<mapsto> ''year'',
        VALUE \<mapsto> ''value'', MEASURE_CODE \<mapsto> ''mcode'', MEASURE_NAME \<mapsto> ''mname'']
       None None (decode_yearsFilter None)
       (JObject
          [(''code'', JString ''W1''), (''eng'', JString ''Test''), (''year'', JString ''2000''),
           (''value'', JNumber (Finite 5.5)), (''mcode'', JString ''pop''),
           (''mname'', JString ''Population'')])
       [(''W1'', \<lparr>area_code = ''W1'', names = [(''cym'', ''Prawf''), (''eng'', ''Test'')],
                 measures = []\<rparr>)]
     = Inr [(''W1'', a')] \<and>
     names a' = [(''cym'', ''Prawf''), (''eng'', ''Test'')] \<and>
     Area_getMeasure a' ''pop''
       = Inr \<lparr>m_code = ''pop'', m_label = ''Population'', m_values = [(2000, Finite 5.5)]\<rparr>)"
proof -
  let ?cols = "[AUTH_CODE \<mapsto> ''code'', AUTH_NAME_ENG \<mapsto> ''eng'', YEAR \<mapsto> ''year'',
      VALUE \<mapsto> ''value'', MEASURE_CODE \<mapsto> ''mcode'', MEASURE_NAME \<mapsto> ''mname'']"
  let ?data = "JObject
        [(''code'', JString ''W1''), (''eng'', JString ''Test''), (''year'', JString ''2000''),
         (''value'', JNumber (Finite 5.5)), (''mcode'', JString ''pop''),
         (''mname'', JString ''Population'')]"
  let ?r = "\<lparr>current_local_auth_code = ''W1'', current_area_name_eng = ''Test'',
          current_year = 2000, current_value = Finite 5.5, current_measure_code = ''pop'',
          current_measure_label = ''Population''\<rparr>"
  let ?a = "\<lparr>area_code = ''W1'', names = [(''cym'', ''Prawf''), (''eng'', ''Test'')],
          measures = []\<rparr>"
  have h1: "WelshStatsJSON_extract stod_integer ?cols ?data = Inr ?r"
    by code_simp
  have h2: "WelshStatsJSON_should_load None (decode_yearsFilter None) ?r"
    by (simp add: WelshStatsJSON_should_load_def decode_yearsFilter_def null_or_empty_def)
  have h3: "Areas_getArea [(''W1'', ?a)] ''W1'' = Inr ?a"
    by (simp add: Areas_getArea_def cmap_at_def)
  have h3': "Areas_getArea [(''W1'', ?a)] (current_local_auth_code ?r) = Inr ?a"
    using h3 by simp
  have h4: "null_or_empty None"
    by (simp add: null_or_empty_def)
  have h4': "null_or_empty None \<or> checkIfAreaMatchesFilter regex_icase_token ?a None = Inr True"
    using h4 by simp
  have g: "Area_getMeasure ?a ''pop'' = Inl out_of_range"
    by (simp add: Area_getMeasure_def cmap_at_def)
  show ?thesis
    using h1 h2 h3 h4
      WelshStatsJSON_element_sets_value_in_existing_area [OF h1 h2 h3' h4']
    by (auto simp: g Measure_setValue_def Measure_new_def to_lower_def tolower_def)
qed

subsection \<open>Merging Areas: \<^verbatim>\<open>Measure::operator=\<close>, \<^verbatim>\<open>Area::operator=\<close>, \<^verbatim>\<open>Areas::setArea\<close>\<close>

lemma cmap_inv_distinct: "cmap_inv m \<Longrightarrow> distinct (map fst m)"
  unfolding cmap_inv_def using strict_sorted_iff by blast

lemma keys_cmap_assign: "fst ` set (cmap_assign k v m) = insert k (fst ` set m)"
  by (induction m) auto

lemma map_fst_cmap_replace:
  "map fst (cmap_replace k v m) = map fst m"
  by (induction m) auto

lemma cmap_inv_assign: "cmap_inv m \<Longrightarrow> cmap_inv (cmap_assign k v m)"
  unfolding cmap_inv_def
proof (induction m)
  case Nil
  then show ?case by simp
next
  case (Cons e m)
  then show ?case
    using keys_cmap_assign [of k v m] by (cases e) (force simp: image_iff)
qed

lemma cmap_inv_replace: "cmap_inv m \<Longrightarrow> cmap_inv (cmap_replace k v m)"
  unfolding cmap_inv_def by (simp add: map_fst_cmap_replace)

lemma map_of_fold_cmap_assign:
  assumes "distinct (map fst xs)"
  shows "map_of (fold (\<lambda>it. cmap_assign (fst it) (snd it)) xs m) = map_of m ++ map_of xs"
  using assms
proof (induction xs arbitrary: m)
  case Nil
  then show ?case by simp
next
  case (Cons x xs)
  have "map_of xs (fst x) = None"
    using Cons.prems by (simp add: map_of_eq_None_iff)
  then have step: "(map_of m)(fst x \<mapsto> snd x) ++ map_of xs = map_of m ++ map_of (x # xs)"
    by (cases x) (auto simp: fun_eq_iff map_add_def split: option.splits)
  have "map_of (fold (\<lambda>it. cmap_assign (fst it) (snd it)) (x # xs) m)
          = map_of (cmap_assign (fst x) (snd x) m) ++ map_of xs"
    using Cons by simp
  also have "\<dots> = (map_of m)(fst x \<mapsto> snd x) ++ map_of xs"
    by (simp only: map_of_cmap_assign)
  finally show ?case
    by (simp only: step)
qed

lemma m_values_fold_setValue:
  "m_values (fold (\<lambda>it. Measure_setValue (fst it) (snd it)) xs m)
     = fold (\<lambda>it. cmap_assign (fst it) (snd it)) xs (m_values m)"
  by (induction xs arbitrary: m) (simp_all add: Measure_setValue_eq)

lemma Measure_assign_values:
  assumes "Measure_inv other"
  shows "map_of (m_values (Measure_assign this other))
           = map_of (m_values this) ++ map_of (m_values other)"
  using assms
  by (simp add: Measure_assign_def m_values_fold_setValue map_of_fold_cmap_assign
        Measure_inv_def cmap_inv_distinct)

lemma iso_639_3_lower: 
  assumes "regex_match_iso_639_3 lang"
  shows "to_lower lang = lang"
proof -
  have "tolower c = c" if "c \<in> set lang" for c
  proof -
    have "c \<in> set ''abcdefghijklmnopqrstuvwxyz''"
      using assms that unfolding regex_match_iso_639_3_def list_all_iff by blast
    then have "map_of (zip ''ABCDEFGHIJKLMNOPQRSTUVWXYZ'' ''abcdefghijklmnopqrstuvwxyz'') c = None"
      using lower_case_letters_fixed by blast
    then show ?thesis
      by (simp add: tolower_def)
  qed
  then show ?thesis
    unfolding to_lower_def by (simp add: map_idI)
qed

lemma Area_setName_valid:
  assumes "regex_match_iso_639_3 lang"
  shows "Area_setName lang name a = Inr (a\<lparr>names := cmap_assign lang name (names a)\<rparr>)"
  using assms cmap_insert_then_assign [of lang name "names a"]
  by (auto simp: Area_setName_def iso_639_3_lower Let_def split: prod.splits)

lemma for_each_setName_valid:
  assumes "list_all (\<lambda>it. regex_match_iso_639_3 (fst it)) xs"
  shows "for_each (\<lambda>it. Area_setName (fst it) (snd it)) xs a
           = Inr (a\<lparr>names := fold (\<lambda>it. cmap_assign (fst it) (snd it)) xs (names a)\<rparr>)"
  using assms
  by (induction xs arbitrary: a) (simp_all add: Area_setName_valid)

lemma Area_setMeasure_lower:
  assumes "to_lower key = key"
  shows "Area_setMeasure key m a =
           a\<lparr>measures :=
               (case map_of (measures a) key of
                  Some old \<Rightarrow> cmap_replace key (Measure_assign old m) (measures a)
                | None \<Rightarrow> cmap_assign key m (measures a))\<rparr>"
  using assms
  by (simp add: Area_setMeasure_def Area_getMeasure_def cmap_at_def Let_def cmap_insert_absent
        split: option.splits)

lemma map_of_measures_setMeasure:
  assumes "to_lower key = key"
  shows "map_of (measures (Area_setMeasure key m a)) =
           (map_of (measures a))
             (key \<mapsto> (case map_of (measures a) key of
                          Some old \<Rightarrow> Measure_assign old m
                        | None \<Rightarrow> m))"
  by (simp add: Area_setMeasure_lower [OF assms] map_of_cmap_replace map_of_cmap_assign
        split: option.splits)

lemma fold_setMeasure_frame:
  "area_code (fold (\<lambda>it. Area_setMeasure (fst it) (snd it)) ms a) = area_code a \<and>
   names (fold (\<lambda>it. Area_setMeasure (fst it) (snd it)) ms a) = names a"
  by (induction ms arbitrary: a) (simp_all add: Area_setMeasure_frame)

lemma map_of_measures_fold_setMeasure:
  assumes "distinct (map fst ms)" and "list_all (\<lambda>it. to_lower (fst it) = fst it) ms"
  shows "map_of (measures (fold (\<lambda>it. Area_setMeasure (fst it) (snd it)) ms a)) key =
           (case map_of ms key of
              None \<Rightarrow> map_of (measures a) key
            | Some m \<Rightarrow>
                Some (case map_of (measures a) key of
                        Some old \<Rightarrow> Measure_assign old m
                      | None \<Rightarrow> m))"
  using assms
proof (induction ms arbitrary: a)
  case Nil
  then show ?case by simp
next
  case (Cons x ms)
  let ?a1 = "Area_setMeasure (fst x) (snd x) a"
  have lower: "to_lower (fst x) = fst x"
    using Cons.prems(2) by simp
  have rest: "map_of ms (fst x) = None"
    using Cons.prems(1) by (simp add: map_of_eq_None_iff)
  have head: "map_of (x # ms) key = (if key = fst x then Some (snd x) else map_of ms key)"
    by (cases x) simp
  have IH: "map_of (measures (fold (\<lambda>it. Area_setMeasure (fst it) (snd it)) (x # ms) a)) key =
           (case map_of ms key of
              None \<Rightarrow> map_of (measures ?a1) key
            | Some m \<Rightarrow>
                Some (case map_of (measures ?a1) key of
                        Some old \<Rightarrow> Measure_assign old m
                      | None \<Rightarrow> m))"
    using Cons.IH [of ?a1] Cons.prems by simp
  show ?case
  proof (cases "key = fst x")
    case True
    then show ?thesis
      unfolding IH head using rest
      by (simp add: map_of_measures_setMeasure [OF lower])
  next
    case False
    then have eq: "map_of (measures ?a1) key = map_of (measures a) key"
      by (simp add: map_of_measures_setMeasure [OF lower])
    show ?thesis
      unfolding IH head eq using False by simp
  qed
qed

lemma Area_assign_union:
  assumes "Area_inv other"
  shows "\<exists>r. Area_assign this other = Inr r \<and>
           area_code r = area_code other \<and>
           map_of (names r) = map_of (names this) ++ map_of (names other) \<and>
           (\<forall>key. map_of (measures r) key =
              (case map_of (measures other) key of
                 None \<Rightarrow> map_of (measures this) key
               | Some m \<Rightarrow>
                   Some (case map_of (measures this) key of
                           Some old \<Rightarrow> Measure_assign old m
                         | None \<Rightarrow> m)))"
proof -
  let ?this' = "this\<lparr>area_code := Area_getLocalAuthorityCode other,
                     names := fold (\<lambda>it. cmap_assign (fst it) (snd it)) (names other) (names this)\<rparr>"
  let ?r = "fold (\<lambda>it. Area_setMeasure (fst it) (snd it)) (measures other) ?this'"
  have valid: "list_all (\<lambda>it. regex_match_iso_639_3 (fst it)) (names other)"
    and dn: "distinct (map fst (names other))"
    and dm: "distinct (map fst (measures other))"
    and lower: "list_all (\<lambda>it. to_lower (fst it) = fst it) (measures other)"
    using assms by (auto simp: Area_inv_def cmap_inv_distinct list_all_iff)
  have run: "Area_assign this other = Inr ?r"
    by (simp add: Area_assign_def for_each_setName_valid [OF valid])
  have "map_of (names ?r) = map_of (names this) ++ map_of (names other)"
    by (simp add: fold_setMeasure_frame map_of_fold_cmap_assign [OF dn])
  moreover have "area_code ?r = area_code other"
    by (simp add: fold_setMeasure_frame Area_getLocalAuthorityCode_def)
  moreover have "map_of (measures ?r) key =
              (case map_of (measures other) key of
                 None \<Rightarrow> map_of (measures this) key
               | Some m \<Rightarrow>
                   Some (case map_of (measures this) key of
                           Some old \<Rightarrow> Measure_assign old m
                         | None \<Rightarrow> m))" for key
  proof -
    have eq: "measures ?this' = measures this"
      by simp
    show ?thesis
      using map_of_measures_fold_setMeasure [OF dm lower, of ?this' key]
      unfolding eq .
  qed
  ultimately show ?thesis
    using run by (intro exI [of _ ?r]) blast
qed

subsection \<open>The class invariants are kept\<close>

lemma Measure_inv_new: "Measure_inv (Measure_new codename lbl)"
  by (simp add: Measure_inv_def Measure_new_def cmap_inv_def)

lemma Measure_inv_setValue: "Measure_inv m \<Longrightarrow> Measure_inv (Measure_setValue y v m)"
  by (simp add: Measure_inv_def Measure_setValue_eq cmap_inv_assign)

lemma Measure_inv_fold_setValue:
  "Measure_inv m \<Longrightarrow> Measure_inv (fold (\<lambda>it. Measure_setValue (fst it) (snd it)) xs m)"
  by (induction xs arbitrary: m) (simp_all add: Measure_inv_setValue)

lemma Measure_inv_assign: "Measure_inv this \<Longrightarrow> Measure_inv (Measure_assign this other)"
  unfolding Measure_assign_def
  by (rule Measure_inv_fold_setValue) (simp add: Measure_inv_def)

lemma Area_inv_new: "Area_inv (Area_new local_authority_code)"
  by (simp add: Area_inv_def Area_new_def cmap_inv_def)

lemma set_cmap_assign: "set (cmap_assign k v m) \<subseteq> insert (k, v) (set m)"
  by (induction m) auto

lemma set_cmap_replace: "set (cmap_replace k v m) \<subseteq> insert (k, v) (set m)"
  by (induction m) auto

lemma Area_inv_setName:
  assumes "Area_inv a" and "Area_setName lang name a = Inr a'"
  shows "Area_inv a'"
proof -
  have valid: "regex_match_iso_639_3 (to_lower lang)"
    using assms(2) by (auto simp: Area_setName_def Let_def split: if_splits)
  have "a' = a\<lparr>names := cmap_assign (to_lower lang) name (names a)\<rparr>"
    using assms(2) valid cmap_insert_then_assign [of "to_lower lang" name "names a"]
    by (auto simp: Area_setName_def Let_def split: prod.splits if_splits)
  then show ?thesis
    using assms(1) valid set_cmap_assign [of "to_lower lang" name "names a"]
    by (auto simp: Area_inv_def cmap_inv_assign list_all_iff)
qed

lemma Area_inv_setMeasure:
  assumes "Area_inv a" and "Measure_inv m"
  shows "Area_inv (Area_setMeasure key m a)"
proof -
  have lower: "to_lower (to_lower key) = to_lower key"
    by (rule to_lower_idem)
  have same: "Area_setMeasure key m a = Area_setMeasure (to_lower key) m a"
    by (simp add: Area_setMeasure_def Let_def to_lower_idem)
  show ?thesis
  proof (cases "map_of (measures a) (to_lower key)")
    case None
    then show ?thesis
      using assms set_cmap_assign [of "to_lower key" m "measures a"]
      unfolding same Area_setMeasure_lower [OF lower]
      by (auto simp: Area_inv_def cmap_inv_assign list_all_iff to_lower_idem)
  next
    case (Some old)
    then have "(to_lower key, old) \<in> set (measures a)"
      by (simp add: map_of_SomeD)
    then have "Measure_inv old"
      using assms(1) by (auto simp: Area_inv_def list_all_iff)
    then have "Measure_inv (Measure_assign old m)"
      by (rule Measure_inv_assign)
    then show ?thesis
      using assms Some set_cmap_replace [of "to_lower key" "Measure_assign old m" "measures a"]
      unfolding same Area_setMeasure_lower [OF lower]
      by (auto simp: Area_inv_def cmap_inv_replace list_all_iff to_lower_idem)
  qed
qed

lemma Area_inv_for_each_setName:
  assumes "Area_inv a" and "for_each (\<lambda>it. Area_setName (fst it) (snd it)) xs a = Inr a'"
  shows "Area_inv a'"
  using assms
proof (induction xs arbitrary: a)
  case Nil
  then show ?case by simp
next
  case (Cons x xs)
  then show ?case
    by (auto split: sum.splits dest: Area_inv_setName)
qed

lemma Area_inv_fold_setMeasure:
  assumes "Area_inv a" and "list_all (\<lambda>it. Measure_inv (snd it)) ms"
  shows "Area_inv (fold (\<lambda>it. Area_setMeasure (fst it) (snd it)) ms a)"
  using assms by (induction ms arbitrary: a) (simp_all add: Area_inv_setMeasure)

lemma Area_inv_assign:
  assumes "Area_inv this" and "Area_inv other" and "Area_assign this other = Inr r"
  shows "Area_inv r"
proof -
  obtain this' where names_set:
      "for_each (\<lambda>it. Area_setName (fst it) (snd it)) (names other)
         (this\<lparr>area_code := Area_getLocalAuthorityCode other\<rparr>) = Inr this'"
    and r: "r = fold (\<lambda>it. Area_setMeasure (fst it) (snd it)) (measures other) this'"
    using assms(3) by (auto simp: Area_assign_def split: sum.splits)
  have "Area_inv (this\<lparr>area_code := Area_getLocalAuthorityCode other\<rparr>)"
    using assms(1) by (simp add: Area_inv_def)
  then have "Area_inv this'"
    using names_set by (rule Area_inv_for_each_setName)
  moreover have "list_all (\<lambda>it. Measure_inv (snd it)) (measures other)"
    using assms(2) by (auto simp: Area_inv_def list_all_iff)
  ultimately show ?thesis
    unfolding r by (rule Area_inv_fold_setMeasure)
qed

text \<open>
  C4. Areas \<open>A\<close> and \<open>B\<close> are stored one after the other under a code that the registry
  does not hold yet (\<open>B\<close> an Area as the class builds them). Both calls succeed, and the
  Area then stored under the code has as names the union of the names of \<open>A\<close> and \<open>B\<close>,
  those of \<open>B\<close> winning on common language codes; for every Measure codename present in
  both, its year series is the union of the two series, the values of \<open>B\<close> winning on
  common years.
\<close>

theorem setArea_twice_is_union_merge:
  assumes "Areas_getArea areas c = Inl out_of_range" and "Area_inv B"
  shows "\<exists>areas1 areas2 R.
           Areas_setArea c A areas = Inr areas1 \<and>
           Areas_setArea c B areas1 = Inr areas2 \<and>
           Areas_getArea areas2 c = Inr R \<and>
           map_of (names R) = map_of (names A) ++ map_of (names B) \<and>
           (\<forall>key mA mB.
              map_of (measures A) key = Some mA \<and> map_of (measures B) key = Some mB \<longrightarrow>
              (\<exists>mR. map_of (measures R) key = Some mR \<and>
                    map_of (m_values mR) = map_of (m_values mA) ++ map_of (m_values mB)))"
proof -
  have absent: "map_of areas c = None"
    using assms(1) by (simp add: Areas_getArea_def cmap_at_def split: option.splits)
  have first: "Areas_setArea c A areas = Inr (cmap_assign c A areas)"
    using absent
    by (simp add: Areas_setArea_def Areas_getArea_def cmap_at_def bind_err_def
          try_catch_out_of_range_def cmap_insert_absent)
  obtain R where assign: "Area_assign A B = Inr R"
    and names_R: "map_of (names R) = map_of (names A) ++ map_of (names B)"
    and measures_R: "\<And>key. map_of (measures R) key =
              (case map_of (measures B) key of
                 None \<Rightarrow> map_of (measures A) key
               | Some m \<Rightarrow>
                   Some (case map_of (measures A) key of
                           Some old \<Rightarrow> Measure_assign old m
                         | None \<Rightarrow> m))"
    using Area_assign_union [OF assms(2), of A] by blast
  have second: "Areas_setArea c B (cmap_assign c A areas)
                  = Inr (cmap_replace c R (cmap_assign c A areas))"
    using assign
    by (simp add: Areas_setArea_def Areas_getArea_def cmap_at_def bind_err_def
          try_catch_out_of_range_def map_of_cmap_assign)
  have lookup: "Areas_getArea (cmap_replace c R (cmap_assign c A areas)) c = Inr R"
    by (simp add: Areas_getArea_def cmap_at_def map_of_cmap_replace map_of_cmap_assign)
  have shared: "\<exists>mR. map_of (measures R) key = Some mR \<and>
                    map_of (m_values mR) = map_of (m_values mA) ++ map_of (m_values mB)"
    if "map_of (measures A) key = Some mA" and "map_of (measures B) key = Some mB"
    for key mA mB
  proof -
    have "(key, mB) \<in> set (measures B)"
      using that(2) by (rule map_of_SomeD)
    then have "Measure_inv mB"
      using assms(2) by (auto simp: Area_inv_def list_all_iff)
    then show ?thesis
      using that measures_R [of key] by (simp add: Measure_assign_values)
  qed
  show ?thesis
    using first second lookup names_R shared by blast
qed


theorem setArea_twice_is_union_merge_witness:
  "Areas_getArea [] ''W1'' = Inl out_of_range \<and>
   Area_inv \<lparr>area_code = ''W1'', names = [(''cym'', ''Abertawe''), (''eng'', ''Swansea City'')],
             measures = [(''pop'', \<lparr>m_code = ''pop'', m_label = ''Population'',
                                    m_values = [(2001, Finite 3), (2002, Finite 4)]\<rparr>)]\<rparr> \<and>
   (\<exists>areas1 areas2 R.
      Areas_setArea ''W1''
        \<lparr>area_code = ''W1'', names = [(''eng'', ''Swansea'')],
         measures = [(''pop'', \<lparr>m_code = ''pop'', m_label = ''People'',
                                m_values = [(2000, Finite 1), (2001, Finite 2)]\<rparr>)]\<rparr> []
        = Inr areas1 \<and>
      Areas_setArea ''W1''
        \<lparr>area_code = ''W1'', names = [(''cym'', ''Abertawe''), (''eng'', ''Swansea City'')],
         measures = [(''pop'', \<lparr>m_code = ''pop'', m_label = ''Population'',
                                m_values = [(2001, Finite 3), (2002, Finite 4)]\<rparr>)]\<rparr> areas1
        = Inr areas2 \<and>
      Areas_getArea areas2 ''W1'' = Inr R \<and>
      map_of (names R) = [''eng'' \<mapsto> ''Swansea City'', ''cym'' \<mapsto> ''Abertawe''] \<and>
      (\<exists>mR. map_of (measures R) ''pop'' = Some mR \<and>
            map_of (m_values mR) = [2000 \<mapsto> Finite 1, 2001 \<mapsto> Finite 3, 2002 \<mapsto> Finite 4]))"
proof -
  let ?A = "\<lparr>area_code = ''W1'', names = [(''eng'', ''Swansea'')],
         measures = [(''pop'', \<lparr>m_code = ''pop'', m_label = ''People'',
                                m_values = [(2000, Finite 1), (2001, Finite 2)]\<rparr>)]\<rparr>"
  let ?B = "\<lparr>area_code = ''W1'', names = [(''cym'', ''Abertawe''), (''eng'', ''Swansea City'')],
             measures = [(''pop'', \<lparr>m_code = ''pop'', m_label = ''Population'',
                                    m_values = [(2001, Finite 3), (2002, Finite 4)]\<rparr>)]\<rparr>"
  have h1: "Areas_getArea [] ''W1'' = Inl out_of_range"
    by (simp add: Areas_getArea_def cmap_at_def)
  have h2: "Area_inv ?B"
    by (simp add: Area_inv_def Measure_inv_def cmap_inv_def regex_match_iso_639_3_def
          to_lower_def tolower_def)
  obtain areas1 areas2 R where r:
      "Areas_setArea ''W1'' ?A [] = Inr areas1"
      "Areas_setArea ''W1'' ?B areas1 = Inr areas2"
      "Areas_getArea areas2 ''W1'' = Inr R"
      "map_of (names R) = map_of (names ?A) ++ map_of (names ?B)"
      "\<And>key mA mB. map_of (measures ?A) key = Some mA \<and> map_of (measures ?B) key = Some mB \<Longrightarrow>
          \<exists>mR. map_of (measures R) key = Some mR \<and>
                map_of (m_values mR) = map_of (m_values mA) ++ map_of (m_values mB)"
    using setArea_twice_is_union_merge [OF h1 h2, of ?A] by blast
  have n: "map_of (names R) = [''eng'' \<mapsto> ''Swansea City'', ''cym'' \<mapsto> ''Abertawe'']"
    using r(4) by (auto simp: fun_eq_iff map_add_def)
  have "\<exists>mR. map_of (measures R) ''pop'' = Some mR \<and>
            map_of (m_values mR) = [2000 \<mapsto> Finite 1, 2001 \<mapsto> Finite 3, 2002 \<mapsto> Finite 4]"
    using r(5) [of "''pop''"] by (auto simp: fun_eq_iff map_add_def)
  then show ?thesis
    using h1 h2 r(1,2,3) n by blast
qed

subsection \<open>\<^verbatim>\<open>populateFromAuthorityCodeCSV\<close>\<close>

lemma getline_measure:
  assumes "getline delim is str0 = (True, is', str)"
  shows "istream_measure is' < istream_measure is"
proof (cases "delim \<in> set (is_buf is)")
  case True
  then have "is_buf is \<noteq> []"
    by auto
  then have "length (tl (dropWhile (\<lambda>c. c \<noteq> delim) (is_buf is))) < length (is_buf is)"
    using length_dropWhile_le [of "\<lambda>c. c \<noteq> delim" "is_buf is"]
    by (cases "is_buf is") auto
  then show ?thesis
    using assms True by (auto simp: getline_def istream_measure_def split: if_splits)
next
  case False
  then show ?thesis
    using assms by (auto simp: getline_def istream_measure_def split: if_splits)
qed

lemma while_getline_lines:
  "\<exists>lines fin. \<forall>body s.
     while_getline delim body is s
       = bind_err (for_each body lines s) (\<lambda>s'. Inr (fin, s' :: 's))"
proof (induction "istream_measure is" arbitrary: "is" rule: less_induct)
  case less
  obtain ok is' str where g: "getline delim is [] = (ok, is', str)"
    by (cases "getline delim is []") auto
  show ?case
  proof (cases ok)
    case False
    then have "\<forall>body s. while_getline delim body is s
                 = bind_err (for_each body [] s) (\<lambda>s'. Inr (is', s' :: 's))"
      using g by (simp add: while_getline.simps bind_err_def)
    then show ?thesis by blast
  next
    case True
    then have "istream_measure is' < istream_measure is"
      using g getline_measure [of delim "is" "[]" is' str] by simp
    then obtain lines fin where rest: "\<And>body s. while_getline delim body is' s
           = bind_err (for_each body lines s) (\<lambda>s'. Inr (fin, s' :: 's))"
      using less by blast
    have "\<forall>body s. while_getline delim body is s
                 = bind_err (for_each body (str # lines) s) (\<lambda>s'. Inr (fin, s' :: 's))"
      using g True rest
      by (subst while_getline.simps) (simp add: bind_err_def split: sum.splits)
    then show ?thesis by blast
  qed
qed


lemma cmap_assign_assign_same: "cmap_assign k v (cmap_assign k v' m) = cmap_assign k v m"
  by (induction m) auto

lemma cmap_assign_commute:
  "k \<noteq> k' \<Longrightarrow> cmap_assign k v (cmap_assign k' v' m) = cmap_assign k' v' (cmap_assign k v m)"
  by (induction m) auto

lemma cmap_replace_assign_same: "cmap_replace k v (cmap_assign k v' m) = cmap_assign k v m"
  by (induction m) auto

lemma cmap_replace_replace_same: "cmap_replace k v (cmap_replace k v' m) = cmap_replace k v m"
  by (induction m) auto

lemma cmap_replace_assign_commute:
  "k \<noteq> k' \<Longrightarrow> cmap_replace k v (cmap_assign k' v' m) = cmap_assign k' v' (cmap_replace k v m)"
  by (induction m) auto

lemma cmap_replace_commute:
  "k \<noteq> k' \<Longrightarrow> cmap_replace k v (cmap_replace k' v' m) = cmap_replace k' v' (cmap_replace k v m)"
  by (induction m) auto

lemma row_names_overwrite:
  "cmap_assign ''eng'' e (cmap_assign ''cym'' w (cmap_assign ''eng'' e' (cmap_assign ''cym'' w' ns)))
     = cmap_assign ''eng'' e (cmap_assign ''cym'' w ns)"
proof -
  have ne: "''cym'' \<noteq> ''eng''"
    by simp
  have "cmap_assign ''cym'' w (cmap_assign ''eng'' e' (cmap_assign ''cym'' w' ns))
          = cmap_assign ''eng'' e' (cmap_assign ''cym'' w ns)"
    by (simp add: cmap_assign_commute [OF ne] cmap_assign_assign_same)
  then show ?thesis
    by (simp add: cmap_assign_assign_same)
qed

lemma AuthorityCodeCSV_merge_absorb:
  assumes "fst row = fst row'"
  shows "AuthorityCodeCSV_merge row (AuthorityCodeCSV_merge row' areas)
           = AuthorityCodeCSV_merge row areas"
proof -
  obtain c e w e' w' where row: "row = (c, e, w)" and row': "row' = (c, e', w')"
    using assms by (cases row, cases row') auto
  show ?thesis
  proof (cases "map_of areas c")
    case None
    then show ?thesis
      unfolding row row'
      by (simp add: AuthorityCodeCSV_merge_def map_of_cmap_assign cmap_replace_assign_same)
  next
    case (Some old)
    then show ?thesis
      unfolding row row'
      by (simp add: AuthorityCodeCSV_merge_def map_of_cmap_replace cmap_replace_replace_same
            row_names_overwrite)
  qed
qed

lemma AuthorityCodeCSV_merge_commute:
  assumes "fst row \<noteq> fst row'"
  shows "AuthorityCodeCSV_merge row (AuthorityCodeCSV_merge row' areas)
           = AuthorityCodeCSV_merge row' (AuthorityCodeCSV_merge row areas)"
proof -
  obtain c e w c' e' w' where row: "row = (c, e, w)" and row': "row' = (c', e', w')"
    and ne: "c \<noteq> c'"
    using assms by (cases row, cases row') auto
  have ne': "c' \<noteq> c"
    using ne by simp
  show ?thesis
    unfolding row row'
    using ne ne'
    by (cases "map_of areas c"; cases "map_of areas c'")
       (simp_all add: AuthorityCodeCSV_merge_def map_of_cmap_assign map_of_cmap_replace
          cmap_assign_commute [OF ne] cmap_replace_assign_commute [OF ne]
          cmap_replace_assign_commute [OF ne'] cmap_replace_commute [OF ne])
qed

lemma AuthorityCodeCSV_merge_again:
  "AuthorityCodeCSV_merge y (fold AuthorityCodeCSV_merge rows (AuthorityCodeCSV_merge y areas))
     = AuthorityCodeCSV_merge y (fold AuthorityCodeCSV_merge rows areas)"
proof (induction rows arbitrary: areas)
  case Nil
  then show ?case
    by (simp add: AuthorityCodeCSV_merge_absorb)
next
  case (Cons z rows)
  show ?case
  proof (cases "fst z = fst y")
    case True
    then show ?thesis
      by (simp add: AuthorityCodeCSV_merge_absorb)
  next
    case False
    then have "AuthorityCodeCSV_merge z (AuthorityCodeCSV_merge y areas)
                 = AuthorityCodeCSV_merge y (AuthorityCodeCSV_merge z areas)"
      by (rule AuthorityCodeCSV_merge_commute)
    then show ?thesis
      using Cons.IH [of "AuthorityCodeCSV_merge z areas"] by simp
  qed
qed

lemma fold_AuthorityCodeCSV_merge_idem:
  "fold AuthorityCodeCSV_merge rows (fold AuthorityCodeCSV_merge rows areas)
     = fold AuthorityCodeCSV_merge rows areas"
proof (induction rows arbitrary: areas rule: rev_induct)
  case Nil
  then show ?case by simp
next
  case (snoc y rows)
  then show ?case
    by (simp add: AuthorityCodeCSV_merge_again)
qed


lemma iso_639_3_eng_cym: "regex_match_iso_639_3 ''eng''" "regex_match_iso_639_3 ''cym''"
  by (simp_all add: regex_match_iso_639_3_def)

lemma Areas_setArea_row:
  "Areas_setArea c \<lparr>area_code = c, names = [(''cym'', w), (''eng'', e)], measures = []\<rparr> areas
     = Inr (AuthorityCodeCSV_merge (c, e, w) areas)"
proof (cases "map_of areas c")
  case None
  then show ?thesis
    by (simp add: Areas_setArea_def Areas_getArea_def cmap_at_def bind_err_def
          try_catch_out_of_range_def cmap_insert_absent AuthorityCodeCSV_merge_def)
next
  case (Some old)
  have "Area_assign old \<lparr>area_code = c, names = [(''cym'', w), (''eng'', e)], measures = []\<rparr>
          = Inr (old\<lparr>area_code := c,
                     names := cmap_assign ''eng'' e (cmap_assign ''cym'' w (names old))\<rparr>)"
    by (simp add: Area_assign_def Area_setName_valid iso_639_3_eng_cym
          Area_getLocalAuthorityCode_def)
  with Some show ?thesis
    by (simp add: Areas_setArea_def Areas_getArea_def cmap_at_def bind_err_def
          try_catch_out_of_range_def AuthorityCodeCSV_merge_def)
qed

lemma AuthorityCodeCSV_row_form:
  "\<exists>d row. \<forall>areas.
     AuthorityCodeCSV_row regex_icase areasFilter line_buff areas
       = (case d of
            Inl err \<Rightarrow> Inl err
          | Inr load \<Rightarrow> Inr (if load then AuthorityCodeCSV_merge row areas else areas))"
proof -
  obtain ok1 ls1 value1 where g1: "getline comma (stringstream line_buff) [] = (ok1, ls1, value1)"
    by (cases "getline comma (stringstream line_buff) []") auto
  obtain ok2 ls2 value2 where g2: "getline comma ls1 value1 = (ok2, ls2, value2)"
    by (cases "getline comma ls1 value1") auto
  obtain ok3 ls3 value3 where g3: "getline comma ls2 value2 = (ok3, ls3, value3)"
    by (cases "getline comma ls2 value2") auto
  let ?a = "\<lparr>area_code = value1, names = [(''cym'', value3), (''eng'', value2)], measures = []\<rparr>"
  let ?d = "if null_or_empty areasFilter then Inr True
            else checkIfAreaMatchesFilter regex_icase ?a areasFilter"
  have "AuthorityCodeCSV_row regex_icase areasFilter line_buff areas
       = (case ?d of
            Inl err \<Rightarrow> Inl err
          | Inr load \<Rightarrow> Inr (if load then AuthorityCodeCSV_merge (value1, value2, value3) areas
                             else areas))" for areas
    using g1 g2 g3
    by (simp add: AuthorityCodeCSV_row_def bind_err_def Area_setName_valid iso_639_3_eng_cym
          Area_new_def Area_getLocalAuthorityCode_def Areas_setArea_row split: sum.splits)
  then show ?thesis
    by blast
qed

lemma for_each_AuthorityCodeCSV_row_form:
  "\<exists>res. \<forall>areas.
     for_each (AuthorityCodeCSV_row regex_icase areasFilter) lines areas
       = (case res of
            Inl err \<Rightarrow> Inl err
          | Inr rows \<Rightarrow> Inr (fold AuthorityCodeCSV_merge rows areas))"
proof (induction lines)
  case Nil
  have "\<forall>areas. for_each (AuthorityCodeCSV_row regex_icase areasFilter) [] areas
       = (case Inr [] of
            Inl err \<Rightarrow> Inl err
          | Inr rows \<Rightarrow> Inr (fold AuthorityCodeCSV_merge rows areas))"
    by simp
  then show ?case by blast
next
  case (Cons line_buff lines)
  obtain res where rest: "\<And>areas. for_each (AuthorityCodeCSV_row regex_icase areasFilter) lines areas
       = (case res of
            Inl err \<Rightarrow> Inl err
          | Inr rows \<Rightarrow> Inr (fold AuthorityCodeCSV_merge rows areas))"
    using Cons.IH by blast
  obtain d row where first: "\<And>areas. AuthorityCodeCSV_row regex_icase areasFilter line_buff areas
       = (case d of
            Inl err \<Rightarrow> Inl err
          | Inr load \<Rightarrow> Inr (if load then AuthorityCodeCSV_merge row areas else areas))"
    using AuthorityCodeCSV_row_form by blast
  let ?res = "case d of
                Inl err \<Rightarrow> Inl err
              | Inr load \<Rightarrow>
                  (case res of
                     Inl err \<Rightarrow> Inl err
                   | Inr rows \<Rightarrow> Inr (if load then row # rows else rows))"
  have "\<forall>areas. for_each (AuthorityCodeCSV_row regex_icase areasFilter) (line_buff # lines) areas
       = (case ?res of
            Inl err \<Rightarrow> Inl err
          | Inr rows \<Rightarrow> Inr (fold AuthorityCodeCSV_merge rows areas))"
    by (simp add: first rest split: sum.splits)
  then show ?case by blast
qed

lemma populateFromAuthorityCodeCSV_form:
  "\<exists>res. \<forall>areas.
     populateFromAuthorityCodeCSV regex_icase is cols areasFilter areas
       = (case res of
            Inl err \<Rightarrow> Inl err
          | Inr (fin, rows) \<Rightarrow> Inr (fin, fold AuthorityCodeCSV_merge rows areas))"
proof -
  obtain ok is1 line_buff where g: "getline newline is [] = (ok, is1, line_buff)"
    by (cases "getline newline is []") auto
  obtain lines fin where loop: "\<And>body (s :: Areas). while_getline newline body is1 s
       = bind_err (for_each body lines s) (\<lambda>s'. Inr (fin, s'))"
    using while_getline_lines [of newline is1] by blast
  obtain res where rows: "\<And>areas. for_each (AuthorityCodeCSV_row regex_icase areasFilter) lines areas
       = (case res of
            Inl err \<Rightarrow> Inl err
          | Inr rows \<Rightarrow> Inr (fold AuthorityCodeCSV_merge rows areas))"
    using for_each_AuthorityCodeCSV_row_form by blast
  let ?res = "case AuthorityCodeCSV_header cols line_buff of
                Inl err \<Rightarrow> Inl err
              | Inr error \<Rightarrow>
                  if error then Inl runtime_error
                  else (case res of Inl err \<Rightarrow> Inl err | Inr rows \<Rightarrow> Inr (fin, rows))"
  have "\<forall>areas. populateFromAuthorityCodeCSV regex_icase is cols areasFilter areas
       = (case ?res of
            Inl err \<Rightarrow> Inl err
          | Inr (fin, rows) \<Rightarrow> Inr (fin, fold AuthorityCodeCSV_merge rows areas))"
    using g by (simp add: populateFromAuthorityCodeCSV_def bind_err_def loop rows split: sum.splits)
  then show ?thesis by blast
qed

lemma populateFromAuthorityCodeCSV_again:
  assumes "populateFromAuthorityCodeCSV regex_icase is cols areasFilter areas = Inr (is1, areas1)"
  shows "\<exists>rows. areas1 = fold AuthorityCodeCSV_merge rows areas \<and>
           populateFromAuthorityCodeCSV regex_icase is cols areasFilter areas1 = Inr (is1, areas1)"
proof -
  obtain res where form: "\<And>areas. populateFromAuthorityCodeCSV regex_icase is cols areasFilter areas
       = (case res of
            Inl err \<Rightarrow> Inl err
          | Inr (fin, rows) \<Rightarrow> Inr (fin, fold AuthorityCodeCSV_merge rows areas))"
    using populateFromAuthorityCodeCSV_form by blast
  obtain rows where res: "res = Inr (is1, rows)"
    and areas1: "areas1 = fold AuthorityCodeCSV_merge rows areas"
    using assms form [of areas] by (auto split: sum.splits)
  have "populateFromAuthorityCodeCSV regex_icase is cols areasFilter areas1 = Inr (is1, areas1)"
    unfolding form res areas1 by (simp add: fold_AuthorityCodeCSV_merge_idem)
  then show ?thesis
    using areas1 by blast
qed

lemma Area_eq_names_loop_self:
  assumes "distinct (map fst (names a))" and "set xs \<subseteq> set (names a)"
  shows "Area_eq_names_loop xs a n = Some (n + length xs)"
  using assms(2)
proof (induction xs arbitrary: n)
  case Nil
  then show ?case by simp
next
  case (Cons x xs)
  have "(fst x, snd x) \<in> set (names a)"
    using Cons.prems by simp
  then have "map_of (names a) (fst x) = Some (snd x)"
    using assms(1) by (simp only: map_of_is_SomeI)
  then have "Area_getName a (fst x) = Inr (snd x)"
    by (simp add: Area_getName_def cmap_at_def)
  then show ?case
    using Cons by simp
qed

lemma Area_eq_measures_loop_cong:
  assumes "measures a = measures a'"
  shows "Area_eq_measures_loop xs a n = Area_eq_measures_loop xs a' n"
proof -
  have "Area_getMeasure a = Area_getMeasure a'"
    using assms by (simp add: Area_getMeasure_def fun_eq_iff)
  then show ?thesis
    by (induction xs arbitrary: n) (simp_all split: sum.splits)
qed

lemma Area_eq_self:
  assumes "cmap_inv (names a)"
  shows "Area_eq a a =
           ((case Area_eq_measures_loop (measures a) a 0 of None \<Rightarrow> 4294967295 | Some n \<Rightarrow> n)
              = length (measures a))"
  using Area_eq_names_loop_self [OF cmap_inv_distinct [OF assms], of "names a" 0]
  by (simp add: Area_eq_def Area_size_def)

lemma Area_eq_self_names_update:
  assumes "cmap_inv (names a)" and "Area_eq a a" and "cmap_inv ns"
  shows "Area_eq (a\<lparr>area_code := c, names := ns\<rparr>) (a\<lparr>area_code := c, names := ns\<rparr>)"
proof -
  let ?a' = "a\<lparr>area_code := c, names := ns\<rparr>"
  have "cmap_inv (names ?a')"
    using assms(3) by simp
  moreover have "Area_eq_measures_loop (measures ?a') ?a' 0
                   = Area_eq_measures_loop (measures a) a 0"
    using Area_eq_measures_loop_cong [of ?a' a "measures a" 0] by simp
  ultimately show ?thesis
    using assms(1,2) by (simp add: Area_eq_self)
qed

lemma Area_eq_self_row:
  "Area_eq \<lparr>area_code = c, names = [(''cym'', w), (''eng'', e)], measures = []\<rparr>
           \<lparr>area_code = c, names = [(''cym'', w), (''eng'', e)], measures = []\<rparr>"
  by (simp add: Area_eq_def Area_size_def Area_getName_def cmap_at_def
        Area_getLocalAuthorityCode_def)

lemma AuthorityCodeCSV_merge_self_equal:
  assumes "\<forall>it \<in> set areas. cmap_inv (names (snd it)) \<and> Area_eq (snd it) (snd it)"
  shows "\<forall>it \<in> set (AuthorityCodeCSV_merge row areas).
           cmap_inv (names (snd it)) \<and> Area_eq (snd it) (snd it)"
proof -
  obtain c e w where row: "row = (c, e, w)"
    by (cases row) auto
  have step: "\<forall>it \<in> set m. cmap_inv (names (snd it)) \<and> Area_eq (snd it) (snd it)"
    if "set m \<subseteq> insert (c, new) (set areas)" and "cmap_inv (names new)" and "Area_eq new new"
    for m new
  proof
    fix it
    assume "it \<in> set m"
    then have "it = (c, new) \<or> it \<in> set areas"
      using that(1) by blast
    then show "cmap_inv (names (snd it)) \<and> Area_eq (snd it) (snd it)"
    proof
      assume "it = (c, new)"
      then show ?thesis
        using that(2,3) by simp
    next
      assume "it \<in> set areas"
      then show ?thesis
        using assms by blast
    qed
  qed
  show ?thesis
  proof (cases "map_of areas c")
    case None
    let ?new = "\<lparr>area_code = c, names = [(''cym'', w), (''eng'', e)], measures = []\<rparr>"
    have merge: "AuthorityCodeCSV_merge row areas = cmap_assign c ?new areas"
      using None unfolding row by (simp add: AuthorityCodeCSV_merge_def)
    have "cmap_inv (names ?new)"
      by (simp add: cmap_inv_def)
    then show ?thesis
      unfolding merge
      using step [OF set_cmap_assign [of c ?new areas] _ Area_eq_self_row [of c w e]]
      by blast
  next
    case (Some old)
    let ?ns = "cmap_assign ''eng'' e (cmap_assign ''cym'' w (names old))"
    let ?new = "old\<lparr>area_code := c, names := ?ns\<rparr>"
    have merge: "AuthorityCodeCSV_merge row areas = cmap_replace c ?new areas"
      using Some unfolding row by (simp add: AuthorityCodeCSV_merge_def)
    have "(c, old) \<in> set areas"
      using Some by (rule map_of_SomeD)
    then have old: "cmap_inv (names old)" "Area_eq old old"
      using assms by auto
    have ns: "cmap_inv ?ns"
      using old(1) by (simp add: cmap_inv_assign)
    have eq: "Area_eq ?new ?new"
      using old ns by (rule Area_eq_self_names_update)
    have "cmap_inv (names ?new)"
      using ns by simp
    then show ?thesis
      unfolding merge
      using step [OF set_cmap_replace [of c ?new areas] _ eq]
      by blast
  qed
qed

lemma fold_AuthorityCodeCSV_merge_self_equal:
  assumes "\<forall>it \<in> set areas. cmap_inv (names (snd it)) \<and> Area_eq (snd it) (snd it)"
  shows "\<forall>it \<in> set (fold AuthorityCodeCSV_merge rows areas).
           cmap_inv (names (snd it)) \<and> Area_eq (snd it) (snd it)"
  using assms
proof (induction rows arbitrary: areas)
  case Nil
  then show ?case by simp
next
  case (Cons row rows)
  have "\<forall>it \<in> set (AuthorityCodeCSV_merge row areas).
          cmap_inv (names (snd it)) \<and> Area_eq (snd it) (snd it)"
    using Cons.prems by (rule AuthorityCodeCSV_merge_self_equal)
  from Cons.IH [OF this] show ?case
    by simp
qed

lemma Areas_equal_self:
  assumes "\<forall>it \<in> set areas. Area_eq (snd it) (snd it)"
  shows "Areas_equal areas areas"
  using assms by (simp add: Areas_equal_def list_all2_same)

text \<open>
  C5. The Authority-Code file is loaded into a registry all of whose Areas are
  well-formed and equal to themselves (the empty registry is one), and the load
  succeeds. Then loading the same input with the same filter again, into the registry
  obtained, succeeds as well, and leaves a registry that is equal to it Area by Area,
  by \<^verbatim>\<open>Area::operator==\<close> (it is even the same registry).
\<close>

theorem populateFromAuthorityCodeCSV_twice_equals_once:
  assumes "\<forall>it \<in> set areas. cmap_inv (names (snd it)) \<and> Area_eq (snd it) (snd it)"
    and "populateFromAuthorityCodeCSV regex_icase is cols areasFilter areas = Inr (is1, areas1)"
  shows "\<exists>areas2.
           populateFromAuthorityCodeCSV regex_icase is cols areasFilter areas1 = Inr (is1, areas2) \<and>
           Areas_equal areas2 areas1 \<and> areas2 = areas1"
proof -
  obtain rows where areas1: "areas1 = fold AuthorityCodeCSV_merge rows areas"
    and again: "populateFromAuthorityCodeCSV regex_icase is cols areasFilter areas1
                  = Inr (is1, areas1)"
    using populateFromAuthorityCodeCSV_again [OF assms(2)] by blast
  have "\<forall>it \<in> set areas1. Area_eq (snd it) (snd it)"
    unfolding areas1 using fold_AuthorityCodeCSV_merge_self_equal [OF assms(1)] by blast
  then have "Areas_equal areas1 areas1"
    by (rule Areas_equal_self)
  then show ?thesis
    using again by blast
qed

theorem populateFromAuthorityCodeCSV_twice_equals_once_witness:
  "list_all (\<lambda>it. cmap_inv (names (snd it)) \<and> Area_eq (snd it) (snd it))
     [(''W0'', \<lparr>area_code = ''W0'', names = [(''eng'', ''Zero'')],
               measures = [(''pop'', \<lparr>m_code = ''pop'', m_label = ''Population'',
                                      m_values = [(2000, Finite 1)]\<rparr>)]\<rparr>)] \<and>
   populateFromAuthorityCodeCSV regex_icase_token
     \<lparr>is_buf = ''code,eng,cym'' @ [newline] @ ''W1,Test,Prawf'' @ [newline] @ ''W2,Other,Arall'',
      is_good = True\<rparr>
     [AUTH_CODE \<mapsto> ''code'', AUTH_NAME_ENG \<mapsto> ''eng'', AUTH_NAME_CYM \<mapsto> ''cym'']
     (Some [''test''])
     [(''W0'', \<lparr>area_code = ''W0'', names = [(''eng'', ''Zero'')],
               measures = [(''pop'', \<lparr>m_code = ''pop'', m_label = ''Population'',
                                      m_values = [(2000, Finite 1)]\<rparr>)]\<rparr>)]
   = Inr (\<lparr>is_buf = [], is_good = False\<rparr>,
          [(''W0'', \<lparr>area_code = ''W0'', names = [(''eng'', ''Zero'')],
                    measures = [(''pop'', \<lparr>m_code = ''pop'', m_label = ''Population'',
                                           m_values = [(2000, Finite 1)]\<rparr>)]\<rparr>),
           (''W1'', \<lparr>area_code = ''W1'', names = [(''cym'', ''Prawf''), (''eng'', ''Test'')],
                    measures = []\<rparr>)]) \<and>
   (\<exists>areas2.
      populateFromAuthorityCodeCSV regex_icase_token
        \<lparr>is_buf = ''code,eng,cym'' @ [newline] @ ''W1,Test,Prawf'' @ [newline] @ ''W2,Other,Arall'',
         is_good = True\<rparr>
        [AUTH_CODE \<mapsto> ''code'', AUTH_NAME_ENG \<mapsto> ''eng'', AUTH_NAME_CYM \<mapsto> ''cym'']
        (Some [''test''])
        [(''W0'', \<lparr>area_code = ''W0'', names = [(''eng'', ''Zero'')],
                  measures = [(''pop'', \<lparr>m_code = ''pop'', m_label = ''Population'',
                                         m_values = [(2000, Finite 1)]\<rparr>)]\<rparr>),
         (''W1'', \<lparr>area_code = ''W1'', names = [(''cym'', ''Prawf''), (''eng'', ''Test'')],
                  measures = []\<rparr>)]
      = Inr (\<lparr>is_buf = [], is_good = False\<rparr>, areas2) \<and>
      Areas_equal areas2
        [(''W0'', \<lparr>area_code = ''W0'', names = [(''eng'', ''Zero'')],
                  measures = [(''pop'', \<lparr>m_code = ''pop'', m_label = ''Population'',
                                         m_values = [(2000, Finite 1)]\<rparr>)]\<rparr>),
         (''W1'', \<lparr>area_code = ''W1'', names = [(''cym'', ''Prawf''), (''eng'', ''Test'')],
                  measures = []\<rparr>)])"
proof -
  let ?areas = "[(''W0'', \<lparr>area_code = ''W0'', names = [(''eng'', ''Zero'')],
               measures = [(''pop'', \<lparr>m_code = ''pop'', m_label = ''Population'',
                                      m_values = [(2000, Finite 1)]\<rparr>)]\<rparr>)]"
  have h0: "list_all (\<lambda>it. cmap_inv (names (snd it)) \<and> Area_eq (snd it) (snd it)) ?areas"
    by code_simp
  have h1: "\<forall>it \<in> set ?areas. cmap_inv (names (snd it)) \<and> Area_eq (snd it) (snd it)"
    using h0 unfolding list_all_iff .
  have h2: "populateFromAuthorityCodeCSV regex_icase_token
     \<lparr>is_buf = ''code,eng,cym'' @ [newline] @ ''W1,Test,Prawf'' @ [newline] @ ''W2,Other,Arall'',
      is_good = True\<rparr>
     [AUTH_CODE \<mapsto> ''code'', AUTH_NAME_ENG \<mapsto> ''eng'', AUTH_NAME_CYM \<mapsto> ''cym'']
     (Some [''test'']) ?areas
   = Inr (\<lparr>is_buf = [], is_good = False\<rparr>,
          [(''W0'', \<lparr>area_code = ''W0'', names = [(''eng'', ''Zero'')],
                    measures = [(''pop'', \<lparr>m_code = ''pop'', m_label = ''Population'',
                                           m_values = [(2000, Finite 1)]\<rparr>)]\<rparr>),
           (''W1'', \<lparr>area_code = ''W1'', names = [(''cym'', ''Prawf''), (''eng'', ''Test'')],
                    measures = []\<rparr>)])"
    by code_simp
  show ?thesis
    using h0 h2 populateFromAuthorityCodeCSV_twice_equals_once [OF h1 h2]
    by blast
qed

subsection \<open>\<^verbatim>\<open>Areas::toJSON\<close>\<close>

lemma for_each_cong:
  assumes "\<And>x s. x \<in> set xs \<Longrightarrow> f x s = g x s"
  shows "for_each f xs s = for_each g xs s"
  using assms by (induction xs arbitrary: s) (auto split: sum.splits)

lemma emplace_loop_object:
  "for_each (\<lambda>it j. json_emplace j (k it) (v it)) xs (JObject acc)
     = Inr (JObject (fold (\<lambda>it m. fst (cmap_insert (k it) (v it) m)) xs acc))"
  by (induction xs arbitrary: acc) (simp_all add: json_emplace_def)

lemma cmap_insert_nonempty: "fst (cmap_insert k v m) \<noteq> []"
  by (cases m) (auto split: prod.splits)

lemma fold_cmap_insert_nonempty:
  "acc \<noteq> [] \<Longrightarrow> fold (\<lambda>it m. fst (cmap_insert (k it) (v it) m)) xs acc \<noteq> []"
  by (induction xs arbitrary: acc) (simp_all add: cmap_insert_nonempty)

lemma emplace_loop_null:
  "for_each (\<lambda>it j. json_emplace j (k it) (v it)) xs JNull
     = Inr (emplaced (fold (\<lambda>it m. fst (cmap_insert (k it) (v it) m)) xs []))"
proof (cases xs)
  case Nil
  then show ?thesis by (simp add: emplaced_def)
next
  case (Cons x rest)
  have "fold (\<lambda>it m. fst (cmap_insert (k it) (v it) m)) rest [(k x, v x)] \<noteq> []"
    by (rule fold_cmap_insert_nonempty) simp
  moreover have "json_emplace JNull (k x) (v x) = Inr (JObject [(k x, v x)])"
    by (simp add: json_emplace_def)
  ultimately show ?thesis
    unfolding Cons
    by (simp add: emplace_loop_object emplaced_def)
qed

lemma cmap_insert_at_end:
  assumes "\<forall>e \<in> set acc. fst e < k"
  shows "fst (cmap_insert k v acc) = acc @ [(k, v)]"
  using assms by (induction acc) (auto split: prod.splits)

lemma fold_cmap_insert_ascending:
  assumes "sorted_wrt (<) (map fst acc @ map k xs)"
  shows "fold (\<lambda>it m. fst (cmap_insert (k it) (v it) m)) xs acc
           = acc @ map (\<lambda>it. (k it, v it)) xs"
  using assms
proof (induction xs arbitrary: acc)
  case Nil
  then show ?case by simp
next
  case (Cons x xs)
  have before: "\<forall>e \<in> set acc. fst e < k x"
    using Cons.prems by (auto simp: sorted_wrt_append)
  have "sorted_wrt (<) (map fst (acc @ [(k x, v x)]) @ map k xs)"
    using Cons.prems by (auto simp: sorted_wrt_append)
  from Cons.IH [OF this] show ?case
    by (simp add: cmap_insert_at_end [OF before])
qed


lemma cmap_inv_insert: "cmap_inv m \<Longrightarrow> cmap_inv (fst (cmap_insert k v m))"
proof (cases "map_of m k")
  case None
  assume "cmap_inv m"
  then show ?thesis
    using None by (simp add: cmap_insert_absent cmap_inv_assign)
next
  case (Some v')
  assume inv: "cmap_inv m"
  have "fst (cmap_insert k v m) = m"
    using inv Some unfolding cmap_inv_def
  proof (induction m)
    case Nil
    then show ?case by simp
  next
    case (Cons e m)
    show ?case
    proof (cases "k = fst e")
      case True
      then show ?thesis by simp
    next
      case False
      then have in_rest: "map_of m k = Some v'"
        using Cons.prems(2) by (cases e) (auto split: if_splits)
      then have "k \<in> fst ` set m"
        by (metis map_of_eq_None_iff option.distinct(1))
      then have "fst e < k"
        using Cons.prems(1) by auto
      then show ?thesis
        using Cons in_rest False by (auto split: prod.splits)
    qed
  qed
  then show ?thesis
    using inv by simp
qed

lemma set_cmap_insert:
  "set (fst (cmap_insert k v m)) \<subseteq> insert (k, v) (set m) \<and>
   set m \<subseteq> set (fst (cmap_insert k v m)) \<and>
   (k \<notin> fst ` set m \<longrightarrow> (k, v) \<in> set (fst (cmap_insert k v m)))"
  by (induction m) (auto split: prod.splits)

lemma fold_cmap_insert_sorted:
  "cmap_inv acc \<Longrightarrow> cmap_inv (fold (\<lambda>it m. fst (cmap_insert (k it) (v it) m)) xs acc)"
  by (induction xs arbitrary: acc) (simp_all add: cmap_inv_insert)

lemma set_fold_cmap_insert:
  assumes "distinct (map k xs)" and "k ` set xs \<inter> fst ` set acc = {}"
  shows "set (fold (\<lambda>it m. fst (cmap_insert (k it) (v it) m)) xs acc)
           = set acc \<union> (\<lambda>it. (k it, v it)) ` set xs"
  using assms
proof (induction xs arbitrary: acc)
  case Nil
  then show ?case by simp
next
  case (Cons x xs)
  let ?acc = "fst (cmap_insert (k x) (v x) acc)"
  have fresh: "k x \<notin> fst ` set acc"
    using Cons.prems(2) by auto
  have acc': "set ?acc = insert (k x, v x) (set acc)"
    using set_cmap_insert [of "k x" "v x" acc] fresh by blast
  have "distinct (map k xs)"
    using Cons.prems(1) by simp
  moreover have "k ` set xs \<inter> fst ` set ?acc = {}"
    using Cons.prems unfolding acc' by auto
  ultimately have "set (fold (\<lambda>it m. fst (cmap_insert (k it) (v it) m)) xs ?acc)
           = set ?acc \<union> (\<lambda>it. (k it, v it)) ` set xs"
    by (rule Cons.IH)
  then show ?case
    unfolding acc' by simp
qed

lemma strictly_sorted_unique:
  assumes "sorted_wrt (<) (map fst xs)" and "sorted_wrt (<) (map fst ys)" and "set xs = set ys"
  shows "xs = (ys :: ('k::linorder \<times> 'v) list)"
proof -
  have dx: "distinct (map fst xs)" and dy: "distinct (map fst ys)"
    using assms(1,2) strict_sorted_iff by blast+
  have sx: "sorted (map fst xs)" and sy: "sorted (map fst ys)"
    using assms(1,2) strict_sorted_iff by blast+
  have keys: "map fst xs = map fst ys"
    using sorted_distinct_set_unique [OF sx dx sy dy] assms(3) by simp
  have len: "length xs = length ys"
    using keys by (metis length_map)
  have "xs ! i = ys ! i" if "i < length xs" for i
  proof -
    have "xs ! i \<in> set ys"
      using that assms(3) by (metis nth_mem)
    then obtain j where j: "j < length ys" "ys ! j = xs ! i"
      by (metis in_set_conv_nth)
    have "map fst ys ! j = map fst ys ! i"
      using j that len keys by (metis nth_map)
    then have "j = i"
      by (metis dy j(1) len length_map nth_eq_iff_index_eq that)
    then show ?thesis
      using j(2) by simp
  qed
  then show ?thesis
    using len by (simp add: list_eq_iff_nth_eq)
qed

lemma fold_cmap_insert_sort_key:
  assumes "distinct (map k xs)"
  shows "fold (\<lambda>it m. fst (cmap_insert (k it) (v it) m)) xs []
           = sort_key fst (map (\<lambda>it. (k it, v it)) xs)"
proof (rule strictly_sorted_unique)
  show "sorted_wrt (<) (map fst (fold (\<lambda>it m. fst (cmap_insert (k it) (v it) m)) xs []))"
    using fold_cmap_insert_sorted [of "[]" k v xs] by (simp add: cmap_inv_def)
next
  define l where "l = map (\<lambda>it. (k it, v it)) xs"
  have "map fst l = map k xs"
    unfolding l_def by (induction xs) auto
  then have "distinct (map fst l)"
    using assms by (simp only:)
  then have "distinct l \<and> inj_on fst (set l)"
    using distinct_map [of fst l] by blast
  then have "distinct (sort_key fst l) \<and> inj_on fst (set (sort_key fst l))"
    by (simp only: distinct_sort set_sort)
  then have "distinct (map fst (sort_key fst l))"
    using distinct_map [of fst "sort_key fst l"] by blast
  then show "sorted_wrt (<) (map fst (sort_key fst (map (\<lambda>it. (k it, v it)) xs)))"
    using sorted_sort_key [of fst l] strict_sorted_iff unfolding l_def by blast
next
  show "set (fold (\<lambda>it m. fst (cmap_insert (k it) (v it) m)) xs [])
          = set (sort_key fst (map (\<lambda>it. (k it, v it)) xs))"
    using set_fold_cmap_insert [OF assms, of "[]" v] by simp
qed

lemma digit_char_inj:
  assumes "a < 10" and "b < 10" and "digit_char a = digit_char b"
  shows "a = b"
proof -
  have "distinct ''0123456789''"
    by simp
  then show ?thesis
    using assms nth_eq_iff_index_eq [of "''0123456789''" a b]
    by (simp add: digit_char_def)
qed

lemma decimal_nonempty: "decimal n \<noteq> []"
  by (subst decimal.simps) simp

lemma decimal_inj: "decimal m = decimal n \<Longrightarrow> m = n"
proof (induction m arbitrary: n rule: decimal.induct)
  case (1 m)
  show ?case
  proof (cases "m < 10")
    case True
    show ?thesis
    proof (cases "n < 10")
      case n: True
      have "[digit_char m] = [digit_char n]"
        using "1.prems" True n by (simp add: decimal.simps [of m] decimal.simps [of n])
      then show ?thesis
        using digit_char_inj [OF True n] by simp
    next
      case n: False
      have "[digit_char m] = decimal (n div 10) @ [digit_char (n mod 10)]"
        using "1.prems" True n by (simp add: decimal.simps [of m] decimal.simps [of n])
      then show ?thesis
        using decimal_nonempty [of "n div 10"] by (cases "decimal (n div 10)") auto
    qed
  next
    case False
    show ?thesis
    proof (cases "n < 10")
      case n: True
      have "decimal (m div 10) @ [digit_char (m mod 10)] = [digit_char n]"
        using "1.prems" False n by (simp add: decimal.simps [of m] decimal.simps [of n])
      then show ?thesis
        using decimal_nonempty [of "m div 10"] by (cases "decimal (m div 10)") auto
    next
      case n: False
      have "decimal (m div 10) @ [digit_char (m mod 10)]
              = decimal (n div 10) @ [digit_char (n mod 10)]"
        using "1.prems" False n by (simp add: decimal.simps [of m] decimal.simps [of n])
      then have pre: "decimal (m div 10) = decimal (n div 10)"
        and last: "digit_char (m mod 10) = digit_char (n mod 10)"
        by simp_all
      have "m div 10 = n div 10"
        using "1.IH" [OF False pre] .
      moreover have "m mod 10 = n mod 10"
        using digit_char_inj [OF _ _ last] by simp
      ultimately show ?thesis
        by (metis div_mult_mod_eq)
    qed
  qed
qed

lemma to_string_inj: "to_string y = to_string y' \<Longrightarrow> y = y'"
  using decimal_inj [of "unat y" "unat y'"] by (simp add: to_string_def word_unat_eq_iff)

lemma distinct_to_string:
  assumes "cmap_inv (vs :: (year, double) cmap)"
  shows "distinct (map (\<lambda>it. to_string (fst it)) vs)"
proof -
  have "distinct (map fst vs)"
    using assms by (rule cmap_inv_distinct)
  moreover have "inj_on to_string (set (map fst vs))"
    by (auto intro: inj_onI dest: to_string_inj)
  ultimately have "distinct (map to_string (map fst vs))"
    using distinct_map [of to_string "map fst vs"] by blast
  then show ?thesis
    by (simp add: comp_def)
qed

lemma Measure_getValuesAsJSON_values_emplaced:
  assumes "Measure_inv m"
  shows "Measure_getValuesAsJSON m = Inr (values_emplaced m)"
  using assms
  by (simp add: Measure_getValuesAsJSON_def values_emplaced_def emplaced_def emplace_loop_null
        fold_cmap_insert_sort_key distinct_to_string Measure_inv_def)

lemma names_loop_names_emplaced:
  assumes "cmap_inv (names a)"
  shows "for_each (\<lambda>it ns. json_emplace ns (fst it) (JString (snd it))) (names a) JNull
           = Inr (names_emplaced a)"
proof -
  have "sorted_wrt (<) (map fst [] @ map fst (names a))"
    using assms by (simp add: cmap_inv_def)
  then show ?thesis
    by (simp add: emplace_loop_null names_emplaced_def emplaced_def
          fold_cmap_insert_ascending [of "[]" fst "names a" "\<lambda>it. JString (snd it)"])
qed

lemma measures_loop_emplaced:
  assumes "cmap_inv (measures a)" and "list_all (\<lambda>it. Measure_inv (snd it)) (measures a)"
  shows "for_each
           (\<lambda>it ms. bind_err (Measure_getValuesAsJSON (snd it)) (json_emplace ms (fst it)))
           (measures a) JNull
         = Inr (emplaced (map (\<lambda>it. (fst it, values_emplaced (snd it))) (measures a)))"
proof -
  have "for_each
           (\<lambda>it ms. bind_err (Measure_getValuesAsJSON (snd it)) (json_emplace ms (fst it)))
           (measures a) JNull
        = for_each (\<lambda>it ms. json_emplace ms (fst it) (values_emplaced (snd it))) (measures a) JNull"
    using assms(2)
    by (intro for_each_cong)
       (simp add: list_all_iff Measure_getValuesAsJSON_values_emplaced bind_err_def)
  moreover have "sorted_wrt (<) (map fst [] @ map fst (measures a))"
    using assms(1) by (simp add: cmap_inv_def)
  ultimately show ?thesis
    by (simp add: emplace_loop_null emplaced_def
          fold_cmap_insert_ascending [of "[]" fst "measures a" "\<lambda>it. values_emplaced (snd it)"])
qed

lemma json_emplace_null: "json_emplace JNull key v = Inr (JObject [(key, v)])"
  by (simp add: json_emplace_def)

lemma json_emplace_object:
  "json_emplace (JObject kvs) key v = Inr (JObject (fst (cmap_insert key v kvs)))"
  by (simp add: json_emplace_def)

lemma to_json_area_emplaced:
  assumes "Area_inv a"
  shows "to_json j a = json_emplace j (area_code a) (area_emplaced a)"
proof -
  have n: "cmap_inv (names a)" and m: "cmap_inv (measures a)"
    and mi: "list_all (\<lambda>it. Measure_inv (snd it)) (measures a)"
    using assms by (auto simp: Area_inv_def list_all_iff)
  have order: "''measures'' < ''names''"
    by simp
  show ?thesis
  proof (cases "measures a = []")
    case True
    then show ?thesis
      unfolding to_json_def names_loop_names_emplaced [OF n]
      by (simp add: bind_err_def json_emplace_null area_emplaced_def
            Area_getLocalAuthorityCode_def)
  next
    case False
    then show ?thesis
      using order
      unfolding to_json_def names_loop_names_emplaced [OF n] measures_loop_emplaced [OF m mi]
      by (simp add: bind_err_def json_emplace_null json_emplace_object area_emplaced_def
            Area_getLocalAuthorityCode_def emplaced_def)
  qed
qed

text \<open>
  For a registry whose Areas are stored under their own codes and satisfy the class
  invariant, the value that \<^verbatim>\<open>Areas::toJSON\<close> builds is the closed form
  \<open>registry_emplaced\<close>.
\<close>

lemma Areas_toJSON_value_registry_emplaced:
  assumes "cmap_inv areas"
    and "\<forall>it \<in> set areas. area_code (snd it) = fst it \<and> Area_inv (snd it)"
  shows "Areas_toJSON_value areas = Inr (registry_emplaced areas)"
proof -
  have "for_each (\<lambda>it j. to_json j (snd it)) areas JNull
          = for_each (\<lambda>it j. json_emplace j (fst it) (area_emplaced (snd it))) areas JNull"
    using assms(2) by (intro for_each_cong) (simp add: to_json_area_emplaced)
  moreover have "sorted_wrt (<) (map fst [] @ map fst areas)"
    using assms(1) by (simp add: cmap_inv_def)
  ultimately show ?thesis
    by (simp add: Areas_toJSON_value_def registry_emplaced_def emplaced_def emplace_loop_null
          fold_cmap_insert_ascending [of "[]" fst areas "\<lambda>it. area_emplaced (snd it)"])
qed

text \<open>
  C9. \<^verbatim>\<open>Areas::toJSON\<close> on a registry that holds an Area without names: the value under
  \<^verbatim>\<open>names\<close> is the null value, not a map. Nothing is emplaced into the value that
  \<^verbatim>\<open>to_json\<close> starts for the names, and the function has no test like the one by which
  \<^verbatim>\<open>Areas::toJSON\<close> turns its own null into the empty object.
\<close>

theorem Areas_toJSON_null_names:
  "Areas_toJSON_value [(''W1'', Area_new ''W1'')]
     = Inr (JObject [(''W1'', JObject [(''names'', JNull)])])"
  by code_simp

text \<open>
  The specification has the empty map there. A Measure without values is serialised as
  null in the same way, where the specification has the empty map from year to value.
\<close>

lemma registry_json_no_names:
  "registry_json [(''W1'', Area_new ''W1'')]
     = JObject [(''W1'', JObject [(''names'', JObject [])])]"
  by code_simp

lemma Areas_toJSON_null_values:
  "Areas_toJSON_value
     [(''W1'', \<lparr>area_code = ''W1'', names = [(''eng'', ''Swansea'')],
               measures = [(''pop'', Measure_new ''pop'' ''Population'')]\<rparr>)]
     = Inr (JObject
         [(''W1'', JObject
             [(''measures'', JObject [(''pop'', JNull)]),
              (''names'', JObject [(''eng'', JString ''Swansea'')])])]) \<and>
   registry_json
     [(''W1'', \<lparr>area_code = ''W1'', names = [(''eng'', ''Swansea'')],
               measures = [(''pop'', Measure_new ''pop'' ''Population'')]\<rparr>)]
     = JObject
         [(''W1'', JObject
             [(''measures'', JObject [(''pop'', JObject [])]),
              (''names'', JObject [(''eng'', JString ''Swansea'')])])]"
  by code_simp

text \<open>
  Apart from these empty containers the code serialises as specified: for a registry
  with at least one Area, every Area with a name and every Measure with a value, the
  value built is \<open>registry_json\<close>; and for the registry without Areas the function
  returns the text \<^verbatim>\<open>{}\<close>, the serialiser writing null as \<^verbatim>\<open>null\<close>.
\<close>

lemma values_emplaced_values_json:
  "m_values m \<noteq> [] \<Longrightarrow> values_emplaced m = values_json m"
  by (auto simp: values_emplaced_def values_json_def emplaced_def
        dest: arg_cong [where f = length])

lemma area_emplaced_area_json:
  assumes "names a \<noteq> []" and "\<forall>it \<in> set (measures a). m_values (snd it) \<noteq> []"
  shows "area_emplaced a = area_json a"
proof -
  have "map (\<lambda>it. (fst it, values_emplaced (snd it))) (measures a)
          = map (\<lambda>it. (fst it, values_json (snd it))) (measures a)"
    using assms(2) by (simp add: values_emplaced_values_json)
  then show ?thesis
    using assms(1) by (simp add: area_emplaced_def area_json_def names_emplaced_def
          names_json_def emplaced_def)
qed

lemma Areas_toJSON_value_registry_json:
  assumes "cmap_inv areas"
    and "\<forall>it \<in> set areas. area_code (snd it) = fst it \<and> Area_inv (snd it)"
    and "areas \<noteq> []"
    and "\<forall>it \<in> set areas. names (snd it) \<noteq> [] \<and>
           (\<forall>m \<in> set (measures (snd it)). m_values (snd m) \<noteq> [])"
  shows "Areas_toJSON_value areas = Inr (registry_json areas)"
proof -
  have "map (\<lambda>it. (fst it, area_emplaced (snd it))) areas
          = map (\<lambda>it. (fst it, area_json (snd it))) areas"
    using assms(4) by (simp add: area_emplaced_area_json)
  then have "registry_emplaced areas = registry_json areas"
    using assms(3) by (simp add: registry_emplaced_def registry_json_def emplaced_def)
  then show ?thesis
    using Areas_toJSON_value_registry_emplaced [OF assms(1) assms(2)] by simp
qed

lemma Areas_toJSON_no_Areas:
  assumes "dump JNull = Inr ''null''"
  shows "Areas_toJSON dump [] = Inr ''{}''"
  using assms by (simp add: Areas_toJSON_def Areas_toJSON_value_def bind_err_def)

lemma Areas_toJSON_value_example:
  "Areas_toJSON_value
     [(''W1'', \<lparr>area_code = ''W1'', names = [(''cym'', ''Abertawe''), (''eng'', ''Swansea'')],
               measures = [(''pop'', \<lparr>m_code = ''pop'', m_label = ''Population'',
                                      m_values = [(999, Finite 1), (1000, Finite 2)]\<rparr>)]\<rparr>),
      (''W2'', \<lparr>area_code = ''W2'', names = [(''eng'', ''Cardiff'')], measures = []\<rparr>)]
   = Inr (JObject
       [(''W1'', JObject
           [(''measures'', JObject
               [(''pop'', JObject [(''1000'', JNumber (Finite 2)), (''999'', JNumber (Finite 1))])]),
            (''names'', JObject [(''cym'', JString ''Abertawe''), (''eng'', JString ''Swansea'')])]),
        (''W2'', JObject [(''names'', JObject [(''eng'', JString ''Cardiff'')])])])"
proof -
  let ?areas = "[(''W1'', \<lparr>area_code = ''W1'', names = [(''cym'', ''Abertawe''), (''eng'', ''Swansea'')],
               measures = [(''pop'', \<lparr>m_code = ''pop'', m_label = ''Population'',
                                      m_values = [(999, Finite 1), (1000, Finite 2)]\<rparr>)]\<rparr>),
      (''W2'', \<lparr>area_code = ''W2'', names = [(''eng'', ''Cardiff'')], measures = []\<rparr>)]"
  have h1: "cmap_inv ?areas"
    by (simp add: cmap_inv_def)
  have h2: "\<forall>it \<in> set ?areas. area_code (snd it) = fst it \<and> Area_inv (snd it)"
    by (simp add: Area_inv_def Measure_inv_def cmap_inv_def regex_match_iso_639_3_def
          to_lower_def tolower_def)
  have h3: "?areas \<noteq> []"
    by simp
  have h4: "\<forall>it \<in> set ?areas. names (snd it) \<noteq> [] \<and>
              (\<forall>m \<in> set (measures (snd it)). m_values (snd m) \<noteq> [])"
    by simp
  have v: "registry_json ?areas = JObject
       [(''W1'', JObject
           [(''measures'', JObject
               [(''pop'', JObject [(''1000'', JNumber (Finite 2)), (''999'', JNumber (Finite 1))])]),
            (''names'', JObject [(''cym'', JString ''Abertawe''), (''eng'', JString ''Swansea'')])]),
        (''W2'', JObject [(''names'', JObject [(''eng'', JString ''Cardiff'')])])]"
    by code_simp
  show ?thesis
    using Areas_toJSON_value_registry_json [OF h1 h2 h3 h4] unfolding v .
qed

end
